theory Spec2Isabelle
  imports Main "HOL-Library.Word" "HOL-Library.Sublist"
begin

section \<open>JavaScript strings\<close>

text \<open>
  A JavaScript string is a sequence of UTF-16 code units. The form code only looks at
  code units (\<open>trim\<close>, the character classes \<open>\s\<close> and \<open>\S\<close> of a regular expression
  without the \<open>u\<close> flag), so a string is a list of 16-bit words. \<open>js\<close> turns an ASCII
  literal into such a string.
\<close>

type_synonym jschar = "16 word"
type_synonym jsstring = "jschar list"

definition js :: "string \<Rightarrow> jsstring" where
  "js s = map (\<lambda>c. of_nat (of_char c)) s"

definition at_sign :: jschar where
  "at_sign = 0x40"

definition full_stop :: jschar where
  "full_stop = 0x2E"

text \<open>
  The code units that \<open>String.prototype.trim\<close> strips and that \<open>\s\<close> matches: the
  WhiteSpace and LineTerminator productions of ECMAScript (TAB, LF, VT, FF, CR, SP, NBSP,
  U+1680, U+2000 to U+200A, LS, PS, U+202F, U+205F, U+3000, U+FEFF).
\<close>

definition is_space :: "jschar \<Rightarrow> bool" where
  "is_space c \<longleftrightarrow>
     c \<in> set [0x09, 0x0A, 0x0B, 0x0C, 0x0D, 0x20, 0xA0, 0x1680,
              0x2000, 0x2001, 0x2002, 0x2003, 0x2004, 0x2005, 0x2006, 0x2007,
              0x2008, 0x2009, 0x200A, 0x2028, 0x2029, 0x202F, 0x205F, 0x3000, 0xFEFF]"

definition trim :: "jsstring \<Rightarrow> jsstring" where
  "trim s = rev (dropWhile is_space (rev (dropWhile is_space s)))"

text \<open>A string is falsy in a condition exactly when it is empty.\<close>

definition truthy :: "jsstring \<Rightarrow> bool" where
  "truthy s \<longleftrightarrow> s \<noteq> []"

section \<open>Regular expressions\<close>

text \<open>
  The two email patterns use character classes, concatenation and the \<open>+\<close> quantifier.
  \<open>RegExp.prototype.test\<close> only reports whether some match exists, so the backtracking
  order of the engine does not matter and a pattern denotes a set of strings. The matcher
  below decides membership by taking derivatives of the pattern, one code unit at a time.
\<close>

datatype regex =
    Nul
  | Eps
  | Cls "jschar \<Rightarrow> bool"
  | Alt regex regex
  | Cat regex regex
  | Star regex

definition OneOrMore :: "regex \<Rightarrow> regex" where
  "OneOrMore r = Cat r (Star r)"

fun accepts_empty :: "regex \<Rightarrow> bool" where
  "accepts_empty Nul = False"
| "accepts_empty Eps = True"
| "accepts_empty (Cls p) = False"
| "accepts_empty (Alt r s) = (accepts_empty r \<or> accepts_empty s)"
| "accepts_empty (Cat r s) = (accepts_empty r \<and> accepts_empty s)"
| "accepts_empty (Star r) = True"

fun after :: "jschar \<Rightarrow> regex \<Rightarrow> regex" where
  "after c Nul = Nul"
| "after c Eps = Nul"
| "after c (Cls p) = (if p c then Eps else Nul)"
| "after c (Alt r s) = Alt (after c r) (after c s)"
| "after c (Cat r s) =
     (if accepts_empty r then Alt (Cat (after c r) s) (after c s)
      else Cat (after c r) s)"
| "after c (Star r) = Cat (after c r) (Star r)"

fun matches :: "regex \<Rightarrow> jsstring \<Rightarrow> bool" where
  "matches r [] = accepts_empty r"
| "matches r (c # cs) = matches (after c r) cs"

text \<open>
  \<open>/^...$/.test(s)\<close> asks for a match of the whole string; without anchors \<open>test\<close>
  succeeds when the pattern matches some substring of \<open>s\<close> (the search tries every start
  index in turn).
\<close>

definition test_anchored :: "regex \<Rightarrow> jsstring \<Rightarrow> bool" where
  "test_anchored r s = matches r s"

definition test_search :: "regex \<Rightarrow> jsstring \<Rightarrow> bool" where
  "test_search r s = list_ex (\<lambda>t. list_ex (matches r) (prefixes t)) (suffixes s)"

text \<open>The language of a pattern, to reason about the matcher.\<close>

inductive_set star :: "jsstring set \<Rightarrow> jsstring set" for L :: "jsstring set" where
  star_empty: "[] \<in> star L"
| star_more: "u \<in> L \<Longrightarrow> v \<in> star L \<Longrightarrow> u @ v \<in> star L"

fun lang :: "regex \<Rightarrow> jsstring set" where
  "lang Nul = {}"
| "lang Eps = {[]}"
| "lang (Cls p) = {[c] | c. p c}"
| "lang (Alt r s) = lang r \<union> lang s"
| "lang (Cat r s) = {u @ v | u v. u \<in> lang r \<and> v \<in> lang s}"
| "lang (Star r) = star (lang r)"

section \<open>The Contact component\<close>

text \<open>
  \<open>Contact\<close> keeps four pieces of React state: \<open>formData\<close>, \<open>errors\<close>,
  \<open>isSubmitting\<close> and \<open>submitStatus\<close>. A missing key of \<open>FormErrors\<close> and a key set to
  \<open>undefined\<close> both read as \<open>undefined\<close>, here \<open>None\<close>.
\<close>

datatype field = Name | Email | Message

record FormData =
  name :: jsstring
  email :: jsstring
  message :: jsstring

type_synonym FormErrors = "field \<Rightarrow> jsstring option"

datatype status = Success | Error

record Contact =
  formData :: FormData
  errors :: FormErrors
  isSubmitting :: bool
  submitStatus :: "status option"

text \<open>The initial values given to \<open>useState\<close>.\<close>

definition emptyForm :: FormData where
  "emptyForm = \<lparr>name = [], email = [], message = []\<rparr>"

definition Contact_init :: Contact where
  "Contact_init =
     \<lparr>formData = emptyForm, errors = (\<lambda>_. None), isSubmitting = False, submitStatus = None\<rparr>"

text \<open>The pattern \<open>/\S+@\S+\.\S+/\<close> of \<open>validateForm\<close>.\<close>

definition non_space :: regex where
  "non_space = Cls (\<lambda>c. \<not> is_space c)"

definition emailPattern :: regex where
  "emailPattern =
     Cat (OneOrMore non_space)
       (Cat (Cls (\<lambda>c. c = at_sign))
         (Cat (OneOrMore non_space)
           (Cat (Cls (\<lambda>c. c = full_stop)) (OneOrMore non_space))))"

text \<open>
  \<open>validateForm\<close> builds \<open>newErrors\<close> field by field, stores it with \<open>setErrors\<close> and
  returns whether it has no keys. The three checks are written as one function per key.
\<close>

definition newErrors :: "FormData \<Rightarrow> FormErrors" where
  "newErrors fd = (\<lambda>f. case f of
       Name \<Rightarrow> if \<not> truthy (trim (name fd)) then Some (js ''Name is required'') else None
     | Email \<Rightarrow>
         if \<not> truthy (trim (email fd)) then Some (js ''Email is required'')
         else if \<not> test_search emailPattern (email fd) then Some (js ''Email is invalid'')
         else None
     | Message \<Rightarrow>
         if \<not> truthy (trim (message fd)) then Some (js ''Message is required'') else None)"

definition validateForm :: "Contact \<Rightarrow> Contact \<times> bool" where
  "validateForm st =
     (let errs = newErrors (formData st)
      in (st\<lparr>errors := errs\<rparr>, errs Name = None \<and> errs Email = None \<and> errs Message = None))"

text \<open>
  \<open>handleChange\<close> stores the new value under the key named by the input and, when the
  rendered \<open>errors[name]\<close> is truthy, sets that key of \<open>errors\<close> to \<open>undefined\<close>.
\<close>

definition setField :: "field \<Rightarrow> jsstring \<Rightarrow> FormData \<Rightarrow> FormData" where
  "setField f v fd =
     (case f of Name \<Rightarrow> fd\<lparr>name := v\<rparr> | Email \<Rightarrow> fd\<lparr>email := v\<rparr> | Message \<Rightarrow> fd\<lparr>message := v\<rparr>)"

definition hasError :: "FormErrors \<Rightarrow> field \<Rightarrow> bool" where
  "hasError errs f = (case errs f of None \<Rightarrow> False | Some m \<Rightarrow> truthy m)"

definition handleChange :: "field \<Rightarrow> jsstring \<Rightarrow> Contact \<Rightarrow> Contact" where
  "handleChange f v st =
     (let st1 = st\<lparr>formData := setField f v (formData st)\<rparr>
      in if hasError (errors st) f then st1\<lparr>errors := (errors st)(f := None)\<rparr> else st1)"

text \<open>
  \<open>handleSubmit\<close> is an async function. Up to the \<open>await\<close> it runs at once:
  \<open>handleSubmit_start\<close> returns the new state and whether the awaited operation was
  started. When the awaited promise settles, \<open>handleSubmit_settle\<close> runs the rest of the
  \<open>try\<close> block or the \<open>catch\<close> block, then \<open>finally\<close>. The promise of the source,
  a timer of one second, always fulfils.
\<close>

datatype outcome = Fulfilled | Rejected

definition handleSubmit_start :: "Contact \<Rightarrow> Contact \<times> bool" where
  "handleSubmit_start st =
     (case validateForm st of
        (st1, valid) \<Rightarrow>
          if \<not> valid then (st1, False)
          else (st1\<lparr>isSubmitting := True, submitStatus := None\<rparr>, True))"

definition handleSubmit_settle :: "outcome \<Rightarrow> Contact \<Rightarrow> Contact" where
  "handleSubmit_settle out st =
     (let st1 = (case out of
                   Fulfilled \<Rightarrow> st\<lparr>submitStatus := Some Success, formData := emptyForm\<rparr>
                 | Rejected \<Rightarrow> st\<lparr>submitStatus := Some Error\<rparr>)
      in st1\<lparr>isSubmitting := False\<rparr>)"

definition handleSubmit :: "outcome \<Rightarrow> Contact \<Rightarrow> Contact" where
  "handleSubmit out st =
     (case handleSubmit_start st of
        (st1, started) \<Rightarrow> if started then handleSubmit_settle out st1 else st1)"

definition simulatedSubmission :: outcome where
  "simulatedSubmission = Fulfilled"

text \<open>What the component renders from its state: the button and the two messages.\<close>

definition submitDisabled :: "Contact \<Rightarrow> bool" where
  "submitDisabled st = isSubmitting st"

definition buttonLabel :: "Contact \<Rightarrow> jsstring" where
  "buttonLabel st = (if isSubmitting st then js ''Sending...'' else js ''Send Message'')"

definition shownMessage :: "Contact \<Rightarrow> jsstring option" where
  "shownMessage st =
     (case submitStatus st of
        None \<Rightarrow> None
      | Some Success \<Rightarrow> Some (js ''Message sent successfully!'')
      | Some Error \<Rightarrow> Some (js ''Failed to send message. Please try again.''))"

text \<open>The states of the form's state machine, read off the two flags.\<close>

datatype phase = Idle | Submitting | Succeeded | Failed

definition phase :: "Contact \<Rightarrow> phase" where
  "phase st =
     (if isSubmitting st then Submitting
      else case submitStatus st of None \<Rightarrow> Idle | Some Success \<Rightarrow> Succeeded | Some Error \<Rightarrow> Failed)"

section \<open>The contact form of personal.js\<close>

text \<open>
  The script works on the DOM: four inputs, an \<open>error\<close> class on the parent of each
  input (shown together with its error message), and the submit button. The pattern of
  both email checks is \<open>/^[^\s@]+@[^\s@]+\.[^\s@]+$/\<close>.
\<close>

record form_dom =
  nameInput :: jsstring
  emailInput :: jsstring
  subjectInput :: jsstring
  messageInput :: jsstring
  nameError :: bool
  emailError :: bool
  subjectError :: bool
  messageError :: bool
  btnText :: jsstring
  btnDisabled :: bool
  btnSuccess :: bool

definition plain_char :: regex where
  "plain_char = Cls (\<lambda>c. \<not> is_space c \<and> c \<noteq> at_sign)"

definition emailRegex :: regex where
  "emailRegex =
     Cat (OneOrMore plain_char)
       (Cat (Cls (\<lambda>c. c = at_sign))
         (Cat (OneOrMore plain_char)
           (Cat (Cls (\<lambda>c. c = full_stop)) (OneOrMore plain_char))))"

text \<open>
  The submit listener. It marks every invalid field and, when all four are valid, puts the
  button into its loading state and starts the first timer; the result carries the
  button text saved in \<open>originalText\<close> when the timer was started.
\<close>

definition form_validate :: "form_dom \<Rightarrow> form_dom \<times> bool" where
  "form_validate d =
     (let (d1, v1) = (if trim (nameInput d) = [] then (d\<lparr>nameError := True\<rparr>, False) else (d, True));
          (d2, v2) = (if \<not> test_anchored emailRegex (emailInput d1)
                      then (d1\<lparr>emailError := True\<rparr>, False) else (d1, v1));
          (d3, v3) = (if trim (subjectInput d2) = [] then (d2\<lparr>subjectError := True\<rparr>, False) else (d2, v2));
          (d4, v4) = (if trim (messageInput d3) = [] then (d3\<lparr>messageError := True\<rparr>, False) else (d3, v3))
      in (d4, v4))"

definition form_submit :: "form_dom \<Rightarrow> form_dom \<times> jsstring option" where
  "form_submit d =
     (case form_validate d of
        (d1, isValid) \<Rightarrow>
          if isValid then (d1\<lparr>btnText := js ''Sending...'', btnDisabled := True\<rparr>, Some (btnText d1))
          else (d1, None))"

text \<open>
  The first timer (1500 ms) shows the success state and starts the second one (2000 ms),
  which resets the form: \<open>form.reset()\<close> gives every input its default value, taken from
  the page's markup.
\<close>

definition form_sent :: "form_dom \<Rightarrow> form_dom" where
  "form_sent d = d\<lparr>btnText := js ''Sent!'', btnSuccess := True\<rparr>"

definition form_reset :: "jsstring \<times> jsstring \<times> jsstring \<times> jsstring \<Rightarrow> jsstring \<Rightarrow> form_dom \<Rightarrow> form_dom" where
  "form_reset defaults originalText d =
     (case defaults of
        (n, e, s, m) \<Rightarrow>
          d\<lparr>nameInput := n, emailInput := e, subjectInput := s, messageInput := m,
            btnText := originalText, btnSuccess := False, btnDisabled := False\<rparr>)"

section \<open>The theme manager of personal.js\<close>

text \<open>
  The script reads and writes three things: the \<open>dark-mode\<close> class of the body, the
  text of the toggle button, and the \<open>theme\<close> entry of local storage (\<open>getItem\<close>
  returns \<open>null\<close>, here \<open>None\<close>, when the entry is absent). The two button texts are
  the sun emoji (U+2600 U+FE0F) and the moon emoji (U+1F319, a surrogate pair).
\<close>

record theme_dom =
  darkMode :: bool
  toggleText :: jsstring
  storedTheme :: "jsstring option"

definition sun :: jsstring where
  "sun = [0x2600, 0xFE0F]"

definition moon :: jsstring where
  "moon = [0xD83C, 0xDF19]"

text \<open>
  The code run at load time: \<open>savedTheme === 'dark' || (!savedTheme && matches)\<close>, where
  \<open>!savedTheme\<close> holds for \<open>null\<close> and for the empty string.
\<close>

definition theme_init :: "bool \<Rightarrow> theme_dom \<Rightarrow> theme_dom" where
  "theme_init prefersDark d =
     (let savedTheme = storedTheme d
      in if savedTheme = Some (js ''dark'')
            \<or> (\<not> (case savedTheme of None \<Rightarrow> False | Some v \<Rightarrow> truthy v) \<and> prefersDark)
         then d\<lparr>darkMode := True, toggleText := sun\<rparr>
         else d)"

text \<open>The click listener of the toggle button.\<close>

definition theme_toggle :: "theme_dom \<Rightarrow> theme_dom" where
  "theme_toggle d =
     (let d1 = d\<lparr>darkMode := \<not> darkMode d\<rparr>
      in if darkMode d1 then d1\<lparr>toggleText := sun, storedTheme := Some (js ''dark'')\<rparr>
         else d1\<lparr>toggleText := moon, storedTheme := Some (js ''light'')\<rparr>)"

text \<open>The theme the document shows, named as the storage names it.\<close>

definition displayedTheme :: "theme_dom \<Rightarrow> jsstring" where
  "displayedTheme d = (if darkMode d then js ''dark'' else js ''light'')"

section \<open>Intersection observers\<close>

text \<open>
  Elements are numbered. An observer has a set of targets; the browser hands its callback
  a batch of entries, each naming a target and whether it intersects, and only for
  elements that are targets when the batch is delivered. The second field of an observer
  is the part of the page its callback writes. A callback returns, next to the new
  state, the targets on which it carried out its marking action, in order.
\<close>

type_synonym elem = nat

record entry =
  target :: elem
  isIntersecting :: bool

record 'a observer =
  targets :: "elem set"
  page :: 'a

type_synonym 'a callback = "entry list \<Rightarrow> 'a observer \<Rightarrow> 'a observer \<times> elem list"

definition deliver :: "'a callback \<Rightarrow> entry list \<Rightarrow> 'a observer \<Rightarrow> 'a observer \<times> elem list" where
  "deliver cb batch ob = cb (filter (\<lambda>e. target e \<in> targets ob) batch) ob"

fun deliveries :: "'a callback \<Rightarrow> entry list list \<Rightarrow> 'a observer \<Rightarrow> 'a observer \<times> elem list list" where
  "deliveries cb [] ob = (ob, [])"
| "deliveries cb (b # bs) ob =
     (case deliver cb b ob of
        (ob1, t) \<Rightarrow> (case deliveries cb bs ob1 of (ob2, ts) \<Rightarrow> (ob2, t # ts)))"

text \<open>The targets of the intersecting entries of a batch, in order.\<close>

definition intersecting :: "entry list \<Rightarrow> elem list" where
  "intersecting es = map target (filter isIntersecting es)"

text \<open>
  \<open>timelineObserver\<close> of personal.js: the page part is the set of elements that carry
  the class \<open>visible\<close>. An intersecting entry adds the class and unobserves the target.
\<close>

definition timeline_entry :: "entry \<Rightarrow> elem set observer \<times> elem list \<Rightarrow> elem set observer \<times> elem list" where
  "timeline_entry e = (\<lambda>(ob, done).
     if isIntersecting e
     then (ob\<lparr>page := insert (target e) (page ob), targets := targets ob - {target e}\<rparr>,
           done @ [target e])
     else (ob, done))"

definition timelineObserver :: "elem set callback" where
  "timelineObserver entries ob = fold timeline_entry entries (ob, [])"

text \<open>
  The observer of the Experience component: an intersecting entry adds the class; the
  target stays observed (the effect's cleanup disconnects the observer at unmount).
\<close>

definition Experience_entry :: "entry \<Rightarrow> elem set observer \<times> elem list \<Rightarrow> elem set observer \<times> elem list" where
  "Experience_entry e = (\<lambda>(ob, done).
     if isIntersecting e
     then (ob\<lparr>page := insert (target e) (page ob)\<rparr>, done @ [target e])
     else (ob, done))"

definition Experience_observer :: "elem set callback" where
  "Experience_observer entries ob = fold Experience_entry entries (ob, [])"

text \<open>
  A progress bar: its \<open>data-width\<close> (personal.js) or \<open>data-level\<close> (Skills) attribute,
  and the values last assigned to \<open>style.width\<close> and \<open>style.transition\<close>.
\<close>

record progress =
  dataAttr :: "jsstring option"
  styleWidth :: "jsstring option"
  styleTransition :: "jsstring option"

text \<open>
  \<open>skillObserver\<close> of personal.js: the page part is the list \<open>skillProgresses\<close>. An
  intersecting entry sets the width of every bar to its \<open>data-width\<close> followed by
  \<open>%\<close> (a missing attribute reads \<open>null\<close>), sets the transition, and unobserves the
  target.
\<close>

definition animate_progress :: "progress \<Rightarrow> progress" where
  "animate_progress p =
     p\<lparr>styleWidth := Some ((case dataAttr p of None \<Rightarrow> js ''null'' | Some w \<Rightarrow> w) @ js ''%''),
       styleTransition := Some (js ''width 1.5s ease-in-out'')\<rparr>"

definition skill_entry :: "entry \<Rightarrow> progress list observer \<times> elem list \<Rightarrow> progress list observer \<times> elem list" where
  "skill_entry e = (\<lambda>(ob, done).
     if isIntersecting e
     then (ob\<lparr>page := map animate_progress (page ob), targets := targets ob - {target e}\<rparr>,
           done @ [target e])
     else (ob, done))"

definition skillObserver :: "progress list callback" where
  "skillObserver entries ob = fold skill_entry entries (ob, [])"

text \<open>
  The observer of the Skills component: the page part gives the progress bars inside each
  element. An intersecting entry sets the width of every bar of the target that has a
  non-empty \<open>data-level\<close>; the target stays observed.
\<close>

definition fill_bar :: "progress \<Rightarrow> progress" where
  "fill_bar p =
     (case dataAttr p of
        None \<Rightarrow> p
      | Some width \<Rightarrow> if truthy width then p\<lparr>styleWidth := Some (width @ js ''%'')\<rparr> else p)"

definition Skills_entry :: "entry \<Rightarrow> (elem \<Rightarrow> progress list) observer \<times> elem list \<Rightarrow> (elem \<Rightarrow> progress list) observer \<times> elem list" where
  "Skills_entry e = (\<lambda>(ob, done).
     if isIntersecting e
     then (ob\<lparr>page := (page ob)(target e := map fill_bar (page ob (target e)))\<rparr>, done @ [target e])
     else (ob, done))"

definition Skills_observer :: "(elem \<Rightarrow> progress list) callback" where
  "Skills_observer entries ob = fold Skills_entry entries (ob, [])"

section \<open>The project gallery\<close>

text \<open>
  The Projects component keeps \<open>selectedProject\<close> and \<open>isModalOpen\<close> and renders one
  modal element, bound to the selected project, when both are truthy.
\<close>

record Project =
  title :: jsstring
  description :: jsstring
  technologies :: "jsstring list"
  githubLink :: jsstring
  liveLink :: jsstring
  imagePath :: jsstring

definition projects :: "Project list" where
  "projects =
     [\<lparr>title = js ''Personal Portfolio'',
       description = js ''A responsive personal portfolio website built with Next.js and TypeScript'',
       technologies = [js ''Next.js'', js ''TypeScript'', js ''CSS''],
       githubLink = js ''https://github.com/yourusername/portfolio'',
       liveLink = js ''https://your-portfolio.com'',
       imagePath = js ''/portfolio.jpg''\<rparr>,
      \<lparr>title = js ''E-commerce Platform'',
       description = js ''Full-stack e-commerce platform with user authentication and payment integration'',
       technologies = [js ''React'', js ''Node.js'', js ''MongoDB'', js ''Stripe''],
       githubLink = js ''https://github.com/yourusername/ecommerce'',
       liveLink = js ''https://your-ecommerce.com'',
       imagePath = js ''/ecommerce.jpg''\<rparr>,
      \<lparr>title = js ''ML Image Classifier'',
       description = js ''Machine learning model for image classification using TensorFlow'',
       technologies = [js ''Python'', js ''TensorFlow'', js ''OpenCV''],
       githubLink = js ''https://github.com/yourusername/ml-classifier'',
       liveLink = js ''https://your-ml-app.com'',
       imagePath = js ''/ml-project.jpg''\<rparr>]"

record Projects =
  selectedProject :: "Project option"
  isModalOpen :: bool

definition Projects_init :: Projects where
  "Projects_init = \<lparr>selectedProject = None, isModalOpen = False\<rparr>"

definition handleProjectClick :: "Project \<Rightarrow> Projects \<Rightarrow> Projects" where
  "handleProjectClick project st = st\<lparr>selectedProject := Some project, isModalOpen := True\<rparr>"

definition closeModal :: "Projects \<Rightarrow> Projects" where
  "closeModal st = st\<lparr>isModalOpen := False, selectedProject := None\<rparr>"

definition rendered_modals :: "Projects \<Rightarrow> Project list" where
  "rendered_modals st =
     (if isModalOpen st then (case selectedProject st of None \<Rightarrow> [] | Some p \<Rightarrow> [p]) else [])"

text \<open>
  The events of the gallery: a click on the card of the \<open>n\<close>-th project (there is a card
  for each entry of \<open>projects\<close> and no other), and a click on the backdrop or the close
  control of the modal, which exist only while the modal is rendered.
\<close>

datatype gallery_event = CardClick nat | CloseClick

definition Projects_event :: "gallery_event \<Rightarrow> Projects \<Rightarrow> Projects" where
  "Projects_event ev st =
     (case ev of
        CardClick n \<Rightarrow> if n < length projects then handleProjectClick (projects ! n) st else st
      | CloseClick \<Rightarrow> if rendered_modals st = [] then st else closeModal st)"

definition Projects_run :: "gallery_event list \<Rightarrow> Projects" where
  "Projects_run evs = fold Projects_event evs Projects_init"

text \<open>
  personal.js: the click listener of a card builds a new modal element for the card's
  title and appends it to the body; the close control and the backdrop of a modal remove
  that modal. The state is the list of the modal elements in the body, in document order,
  each given by the card title it was built from; \<open>modal_remove k\<close> is the click on the
  close control or backdrop of the modal at position \<open>k\<close>. (The \<open>clicked\<close> class the
  listener puts on the card for 300 ms is left out.)
\<close>

definition card_click :: "jsstring \<Rightarrow> jsstring list \<Rightarrow> jsstring list" where
  "card_click t modals = modals @ [t]"

definition modal_remove :: "nat \<Rightarrow> jsstring list \<Rightarrow> jsstring list" where
  "modal_remove k modals = take k modals @ drop (Suc k) modals"

section \<open>The typing effect\<close>

text \<open>
  The Hero component: \<open>text\<close> and \<open>currentIndex\<close> are React state. While
  \<open>currentIndex < fullText.length\<close> the effect has a timer pending; when it fires, one
  character is appended and the index grows by one. Otherwise no timer is pending and
  nothing happens. The heading renders the text followed by the cursor span, in every
  render.
\<close>

definition fullText :: jsstring where
  \<open>fullText = js (''I'' @ [CHR 0x27] @ ''m Zheyuan Lin, a Computer Science Student'')\<close>

record Hero =
  heroText :: jsstring
  currentIndex :: nat

definition Hero_init :: Hero where
  "Hero_init = \<lparr>heroText = [], currentIndex = 0\<rparr>"

definition Hero_tick :: "Hero \<Rightarrow> Hero" where
  "Hero_tick h =
     (if currentIndex h < length fullText
      then h\<lparr>heroText := heroText h @ [fullText ! currentIndex h],
             currentIndex := currentIndex h + 1\<rparr>
      else h)"

datatype node = TextNode jsstring | CursorSpan

definition Hero_render :: "Hero \<Rightarrow> node list" where
  "Hero_render h = [TextNode (heroText h), CursorSpan]"

text \<open>
  personal.js: \<open>typeWriter\<close> works on the variable \<open>i\<close> and on the heading element,
  through its \<open>innerHTML\<close>. The heading's children are modelled as a list of nodes: text
  nodes and the cursor span. Reading \<open>innerHTML\<close> serialises the children; a text node
  is written with \<open>&\<close>, \<open><\<close>, \<open>>\<close> and U+00A0 escaped.
\<close>

definition cursorMarkup :: jsstring where
  \<open>cursorMarkup = js ''<span class="cursor">|</span>''\<close>

definition html_escape :: "jsstring \<Rightarrow> jsstring" where
  "html_escape s =
     concat (map (\<lambda>c. if c = 0x26 then js ''&amp;''
                      else if c = 0x3C then js ''&lt;''
                      else if c = 0x3E then js ''&gt;''
                      else if c = 0xA0 then js ''&nbsp;''
                      else [c]) s)"

fun serialize :: "node \<Rightarrow> jsstring" where
  "serialize (TextNode s) = html_escape s"
| "serialize CursorSpan = cursorMarkup"

definition innerHTML :: "node list \<Rightarrow> jsstring" where
  "innerHTML ns = concat (map serialize ns)"

text \<open>
  \<open>innerHTML += s\<close> serialises the children, appends \<open>s\<close> and parses the result, which
  replaces the children. The script appends two kinds of string to children that earlier
  such assignments built. After the serialised children a single character is read by
  the parser as text: NUL is ignored, CR is read as LF, every other character (also a
  lone \<open>&\<close> or \<open><\<close> at the end of the input) stands for itself; the text joins a
  final text node or starts a new one. The cursor markup is read as the span element.
\<close>

definition parsed_char :: "jschar \<Rightarrow> jsstring" where
  "parsed_char c = (if c = 0x00 then [] else if c = 0x0D then [0x0A] else [c])"

definition append_text :: "jsstring \<Rightarrow> node list \<Rightarrow> node list" where
  "append_text s ns =
     (if s = [] then ns
      else (case rev ns of
              TextNode u # r \<Rightarrow> rev r @ [TextNode (u @ s)]
            | _ \<Rightarrow> ns @ [TextNode s]))"

definition append_char :: "jschar \<Rightarrow> node list \<Rightarrow> node list" where
  "append_char c ns = append_text (parsed_char c) ns"

definition append_cursor :: "node list \<Rightarrow> node list" where
  "append_cursor ns = ns @ [CursorSpan]"

text \<open>
  The state of the effect: the variable \<open>i\<close>, the children of the heading (emptied by
  \<open>innerHTML = ''\<close> at load), and whether a timer is pending. \<open>originalText\<close> is the
  \<open>innerHTML\<close> of the heading read at load, taken from the page. \<open>typeWriter\<close> appends
  one character and starts the next timer, or appends the cursor markup and starts none.
  A tick is the firing of the pending timer.
\<close>

record typing =
  charIndex :: nat
  heading :: "node list"
  timerPending :: bool

definition typing_init :: typing where
  "typing_init = \<lparr>charIndex = 0, heading = [], timerPending = True\<rparr>"

definition typeWriter :: "jsstring \<Rightarrow> typing \<Rightarrow> typing" where
  "typeWriter originalText t =
     (if charIndex t < length originalText
      then t\<lparr>heading := append_char (originalText ! charIndex t) (heading t),
             charIndex := charIndex t + 1, timerPending := True\<rparr>
      else t\<lparr>heading := append_cursor (heading t), timerPending := False\<rparr>)"

definition typing_tick :: "jsstring \<Rightarrow> typing \<Rightarrow> typing" where
  "typing_tick originalText t = (if timerPending t then typeWriter originalText t else t)"

text \<open>
  The text the parser has read from a string appended character by character, and the
  children that hold a text: none for the empty text, else one text node.
\<close>

definition parsed :: "jsstring \<Rightarrow> jsstring" where
  "parsed s = concat (map parsed_char s)"

definition text_nodes :: "jsstring \<Rightarrow> node list" where
  "text_nodes s = (if s = [] then [] else [TextNode s])"

text \<open>
  What holds of the script's state before and after every tick: the index is within the
  text, the heading holds that many characters of it as the parser read them, followed
  by the cursor span once no timer is pending, which happens only at the end of the text.
\<close>

definition typing_inv :: "jsstring \<Rightarrow> typing \<Rightarrow> bool" where
  "typing_inv originalText t \<longleftrightarrow>
     charIndex t \<le> length originalText
     \<and> heading t = text_nodes (parsed (take (charIndex t) originalText))
                   @ (if timerPending t then [] else [CursorSpan])
     \<and> (timerPending t \<or> charIndex t = length originalText)"

section \<open>Facts about strings and patterns\<close>

lemma trim_empty_iff: "trim s = [] \<longleftrightarrow> (\<forall>c \<in> set s. is_space c)"
proof
  assume "trim s = []"
  then have all: "\<forall>c \<in> set (dropWhile is_space s). is_space c"
    by (simp add: trim_def dropWhile_eq_Nil_conv)
  have "dropWhile is_space s = []"
  proof (rule ccontr)
    assume ne: "dropWhile is_space s \<noteq> []"
    then have "\<not> is_space (hd (dropWhile is_space s))"
      by (rule hd_dropWhile)
    moreover from ne have "hd (dropWhile is_space s) \<in> set (dropWhile is_space s)"
      by simp
    ultimately show False using all by blast
  qed
  then show "\<forall>c \<in> set s. is_space c"
    by (simp add: dropWhile_eq_Nil_conv)
next
  assume "\<forall>c \<in> set s. is_space c"
  then have d: "dropWhile is_space s = []"
    by (simp add: dropWhile_eq_Nil_conv)
  show "trim s = []"
    unfolding trim_def d by simp
qed

lemma accepts_empty_lang: "accepts_empty r \<longleftrightarrow> [] \<in> lang r"
  by (induction r) (auto intro: star.star_empty)

lemma star_split:
  "x \<in> star L \<Longrightarrow> x = c # w \<Longrightarrow> \<exists>u v. c # u \<in> L \<and> v \<in> star L \<and> w = u @ v"
proof (induction arbitrary: w rule: star.induct)
  case star_empty
  then show ?case by simp
next
  case (star_more u v)
  show ?case
  proof (cases u)
    case Nil
    with star_more show ?thesis by simp
  next
    case (Cons a u')
    with star_more.hyps star_more.prems show ?thesis by auto
  qed
qed

lemma star_Cons:
  "c # w \<in> star L \<longleftrightarrow> (\<exists>u v. c # u \<in> L \<and> v \<in> star L \<and> w = u @ v)"
proof
  assume "c # w \<in> star L"
  then show "\<exists>u v. c # u \<in> L \<and> v \<in> star L \<and> w = u @ v"
    by (rule star_split) simp
next
  assume "\<exists>u v. c # u \<in> L \<and> v \<in> star L \<and> w = u @ v"
  then obtain u v where "c # u \<in> L" "v \<in> star L" "w = u @ v" by blast
  then show "c # w \<in> star L"
    using star.star_more [of "c # u" L v] by simp
qed

lemma lang_after: "w \<in> lang (after c r) \<longleftrightarrow> c # w \<in> lang r"
proof (induction r arbitrary: w)
  case (Cat r s)
  then show ?case
    by (auto simp: accepts_empty_lang Cons_eq_append_conv)
next
  case (Star r)
  then show ?case
    by (auto simp: star_Cons)
qed auto

lemma matches_lang: "matches r s \<longleftrightarrow> s \<in> lang r"
  by (induction s arbitrary: r) (simp_all add: accepts_empty_lang lang_after)

lemma test_search_lang:
  "test_search r s \<longleftrightarrow> (\<exists>p m q. s = p @ m @ q \<and> m \<in> lang r)"
proof
  assume "test_search r s"
  then obtain t m where "suffix t s" "prefix m t" "m \<in> lang r"
    by (auto simp: test_search_def list_ex_iff matches_lang)
  then show "\<exists>p m q. s = p @ m @ q \<and> m \<in> lang r"
    by (auto simp: suffix_def prefix_def)
next
  assume "\<exists>p m q. s = p @ m @ q \<and> m \<in> lang r"
  then obtain p m q where s: "s = p @ m @ q" and m: "m \<in> lang r" by blast
  have "m @ q \<in> set (suffixes s)" "m \<in> set (prefixes (m @ q))"
    by (simp_all add: s suffix_def)
  with m show "test_search r s"
    unfolding test_search_def list_ex_iff matches_lang by blast
qed

lemma emailPattern_shape:
  assumes "m \<in> lang emailPattern"
  shows "\<exists>u v w. m = u @ [at_sign] @ v @ [full_stop] @ w"
  using assms unfolding emailPattern_def by (auto simp del: append_assoc) 

lemma emailRegex_shape:
  assumes "m \<in> lang emailRegex"
  shows "\<exists>u v w. m = u @ [at_sign] @ v @ [full_stop] @ w"
  using assms unfolding emailRegex_def by (auto simp del: append_assoc)

lemma matches_test_search:
  assumes "matches r s"
  shows "test_search r s"
proof -
  have "s = [] @ s @ []" by simp
  with assms show ?thesis
    unfolding test_search_lang matches_lang by blast
qed

lemma search_needs_dot_after_at:
  assumes "test_search emailPattern e"
  shows "\<exists>u v w. e = u @ [at_sign] @ v @ [full_stop] @ w"
proof -
  from assms obtain p m q where e: "e = p @ m @ q" and "m \<in> lang emailPattern"
    by (auto simp: test_search_lang)
  then obtain u v w where "m = u @ [at_sign] @ v @ [full_stop] @ w"
    using emailPattern_shape by blast
  with e have "e = (p @ u) @ [at_sign] @ v @ [full_stop] @ (w @ q)" by simp
  then show ?thesis by blast
qed

lemma anchored_needs_dot_after_at:
  assumes "test_anchored emailRegex e"
  shows "\<exists>u v w. e = u @ [at_sign] @ v @ [full_stop] @ w"
  using assms emailRegex_shape by (simp add: test_anchored_def matches_lang)

lemma shape_has_at: "e = u @ [at_sign] @ v @ [full_stop] @ w \<Longrightarrow> at_sign \<in> set e"
  by simp

lemma newErrors_email_rejects:
  assumes "\<not> test_search emailPattern e"
  shows "newErrors (fd\<lparr>email := e\<rparr>) Email \<noteq> None"
  using assms by (simp add: newErrors_def)

lemma form_validate_snd:
  "snd (form_validate d) \<longleftrightarrow>
     trim (nameInput d) \<noteq> [] \<and> test_anchored emailRegex (emailInput d) \<and>
     trim (subjectInput d) \<noteq> [] \<and> trim (messageInput d) \<noteq> []"
  by (simp add: form_validate_def Let_def split: prod.splits if_splits)

lemma form_validate_emailError:
  "emailError (fst (form_validate d)) \<longleftrightarrow> emailError d \<or> \<not> test_anchored emailRegex (emailInput d)"
  by (simp add: form_validate_def Let_def split: prod.splits if_splits)

lemma dot_after_at_iff:
  "(\<exists>u v w. e = u @ [a] @ v @ [b] @ w) \<longleftrightarrow> b \<in> set (tl (dropWhile (\<lambda>c. c \<noteq> a) e))"
proof
  assume "\<exists>u v w. e = u @ [a] @ v @ [b] @ w"
  then obtain u v w where e: "e = u @ [a] @ v @ [b] @ w" by blast
  show "b \<in> set (tl (dropWhile (\<lambda>c. c \<noteq> a) e))"
    unfolding e
  proof (induction u)
    case Nil
    then show ?case by simp
  next
    case (Cons x u)
    then show ?case by (cases "x = a") auto
  qed
next
  assume "b \<in> set (tl (dropWhile (\<lambda>c. c \<noteq> a) e))"
  then obtain v w where t: "tl (dropWhile (\<lambda>c. c \<noteq> a) e) = v @ b # w"
    by (auto simp: in_set_conv_decomp)
  have ne: "dropWhile (\<lambda>c. c \<noteq> a) e \<noteq> []"
  proof
    assume d0: "dropWhile (\<lambda>c. c \<noteq> a) e = []"
    from t show False unfolding d0 by simp
  qed
  then have "hd (dropWhile (\<lambda>c. c \<noteq> a) e) = a"
    using hd_dropWhile [of "\<lambda>c. c \<noteq> a" e] by simp
  with ne t have "dropWhile (\<lambda>c. c \<noteq> a) e = a # v @ b # w"
    by (cases "dropWhile (\<lambda>c. c \<noteq> a) e") simp_all
  then have "e = takeWhile (\<lambda>c. c \<noteq> a) e @ [a] @ v @ [b] @ w"
    using takeWhile_dropWhile_id [of "\<lambda>c. c \<noteq> a" e] by simp
  then show "\<exists>u v w. e = u @ [a] @ v @ [b] @ w" by blast
qed

lemma validateForm_snd:
  "snd (validateForm st) \<longleftrightarrow>
     trim (name (formData st)) \<noteq> [] \<and> trim (email (formData st)) \<noteq> [] \<and>
     test_search emailPattern (email (formData st)) \<and> trim (message (formData st)) \<noteq> []"
  by (auto simp: validateForm_def newErrors_def truthy_def Let_def)

lemma validateForm_fst: "fst (validateForm st) = st\<lparr>errors := newErrors (formData st)\<rparr>"
  by (simp add: validateForm_def Let_def)

lemma handleSubmit_start_valid:
  assumes "snd (validateForm st)"
  shows "handleSubmit_start st =
     (st\<lparr>errors := newErrors (formData st), isSubmitting := True, submitStatus := None\<rparr>, True)"
  using assms validateForm_fst [of st]
  by (cases "validateForm st") (simp add: handleSubmit_start_def)

lemma handleSubmit_start_invalid:
  assumes "\<not> snd (validateForm st)"
  shows "handleSubmit_start st = (st\<lparr>errors := newErrors (formData st)\<rparr>, False)"
  using assms validateForm_fst [of st]
  by (cases "validateForm st") (simp add: handleSubmit_start_def)

lemma valid_example:
  "snd (validateForm (Contact_init\<lparr>formData := \<lparr>name = js ''A'', email = js ''a@b.com'', message = js ''hi''\<rparr>\<rparr>))"
proof -
  have "trim (js ''A'') \<noteq> []" "trim (js ''a@b.com'') \<noteq> []" "trim (js ''hi'') \<noteq> []"
    by code_simp+
  moreover have "matches emailPattern (js ''a@b.com'')"
    by code_simp
  ultimately show ?thesis
    by (simp add: validateForm_snd matches_test_search)
qed

section \<open>The contact form\<close>

text \<open>
  The submit listener of personal.js on a valid form: the button shows \<open>Sending...\<close> and
  is disabled, the first timer shows \<open>Sent!\<close>, and the second one gives the inputs
  their default values and the button its former text, enabled. Its timers cannot fail,
  so the listener has no error outcome.
\<close>

lemma form_validate_valid:
  assumes "snd (form_validate d)"
  shows "fst (form_validate d) = d"
  using assms by (simp add: form_validate_def Let_def split: prod.splits if_splits)

lemma form_submit_valid:
  assumes "snd (form_validate d)"
  shows "form_submit d = (d\<lparr>btnText := js ''Sending...'', btnDisabled := True\<rparr>, Some (btnText d))"
proof -
  obtain d1 v where fv: "form_validate d = (d1, v)" by (cases "form_validate d")
  with assms form_validate_valid [OF assms] have "d1 = d" "v" by simp_all
  with fv show ?thesis by (simp add: form_submit_def)
qed

lemma form_submit_valid_then:
  assumes "snd (form_validate d)"
  shows "btnText (form_sent (fst (form_submit d))) = js ''Sent!''"
    and "btnSuccess (form_sent (fst (form_submit d)))"
    and "form_reset (n, e, s, m) (btnText d) (form_sent (fst (form_submit d)))
       = d\<lparr>nameInput := n, emailInput := e, subjectInput := s, messageInput := m,
            btnSuccess := False, btnDisabled := False\<rparr>"
  unfolding form_submit_valid [OF assms]
  by (simp_all add: form_reset_def form_sent_def)

text \<open>
  Claim C1. Submitting a fully valid form starts the awaited operation and puts the form
  into the submitting state with the button disabled. When the operation fulfils (as
  the simulated one always does) the form reaches the success state, all three fields
  are empty and the success message is shown. When the operation rejects, the form
  reaches the error state, the fields keep their values and the error message is
  shown. In both outcomes the button is enabled again.
\<close>

theorem submit_valid_form:
  assumes "snd (validateForm st)"
  shows "snd (handleSubmit_start st)
       \<and> phase (fst (handleSubmit_start st)) = Submitting
       \<and> submitDisabled (fst (handleSubmit_start st))
       \<and> formData (fst (handleSubmit_start st)) = formData st
       \<and> handleSubmit simulatedSubmission st = handleSubmit Fulfilled st
       \<and> phase (handleSubmit Fulfilled st) = Succeeded
       \<and> formData (handleSubmit Fulfilled st) = \<lparr>name = [], email = [], message = []\<rparr>
       \<and> shownMessage (handleSubmit Fulfilled st) = Some (js ''Message sent successfully!'')
       \<and> \<not> submitDisabled (handleSubmit Fulfilled st)
       \<and> phase (handleSubmit Rejected st) = Failed
       \<and> formData (handleSubmit Rejected st) = formData st
       \<and> shownMessage (handleSubmit Rejected st) = Some (js ''Failed to send message. Please try again.'')
       \<and> \<not> submitDisabled (handleSubmit Rejected st)"
  using handleSubmit_start_valid [OF assms]
  by (simp add: handleSubmit_def handleSubmit_settle_def phase_def submitDisabled_def
      shownMessage_def simulatedSubmission_def emptyForm_def)

theorem submit_valid_form_witness:
  "phase Contact_init = Idle
   \<and> snd (validateForm (Contact_init\<lparr>formData := \<lparr>name = js ''A'', email = js ''a@b.com'', message = js ''hi''\<rparr>\<rparr>))
   \<and> phase (fst (handleSubmit_start (Contact_init\<lparr>formData := \<lparr>name = js ''A'', email = js ''a@b.com'', message = js ''hi''\<rparr>\<rparr>))) = Submitting
   \<and> phase (handleSubmit Fulfilled (Contact_init\<lparr>formData := \<lparr>name = js ''A'', email = js ''a@b.com'', message = js ''hi''\<rparr>\<rparr>)) = Succeeded
   \<and> formData (handleSubmit Fulfilled (Contact_init\<lparr>formData := \<lparr>name = js ''A'', email = js ''a@b.com'', message = js ''hi''\<rparr>\<rparr>)) = \<lparr>name = [], email = [], message = []\<rparr>
   \<and> phase (handleSubmit Rejected (Contact_init\<lparr>formData := \<lparr>name = js ''A'', email = js ''a@b.com'', message = js ''hi''\<rparr>\<rparr>)) = Failed
   \<and> formData (handleSubmit Rejected (Contact_init\<lparr>formData := \<lparr>name = js ''A'', email = js ''a@b.com'', message = js ''hi''\<rparr>\<rparr>)) = \<lparr>name = js ''A'', email = js ''a@b.com'', message = js ''hi''\<rparr>"
proof -
  have idle: "phase Contact_init = Idle"
    by (simp add: phase_def Contact_init_def)
  have fd: "formData (Contact_init\<lparr>formData := \<lparr>name = js ''A'', email = js ''a@b.com'', message = js ''hi''\<rparr>\<rparr>)
      = \<lparr>name = js ''A'', email = js ''a@b.com'', message = js ''hi''\<rparr>"
    by simp
  show ?thesis
    using idle valid_example submit_valid_form [OF valid_example]
    by (simp only: fd simp_thms)
qed

text \<open>
  Claim C2. An email without \<open>@\<close>, or without a \<open>.\<close> somewhere after an \<open>@\<close>, is
  rejected by \<open>validateForm\<close> of the Contact component (the email key gets an error and
  the form is invalid, whatever the other fields hold) and by the submit listener of
  personal.js (the email field is marked and the form is invalid). Both validators
  judge \<open>foo\<close> invalid and \<open>foo@bar.com\<close> valid.
\<close>

theorem email_validation_rejects:
  assumes "at_sign \<notin> set e \<or> (\<nexists>u v w. e = u @ [at_sign] @ v @ [full_stop] @ w)"
  shows "newErrors (fd\<lparr>email := e\<rparr>) Email \<noteq> None
       \<and> \<not> snd (validateForm (st\<lparr>formData := fd\<lparr>email := e\<rparr>\<rparr>))
       \<and> emailError (fst (form_validate (d\<lparr>emailInput := e\<rparr>)))
       \<and> \<not> snd (form_validate (d\<lparr>emailInput := e\<rparr>))
       \<and> newErrors (fd\<lparr>email := js ''foo''\<rparr>) Email = Some (js ''Email is invalid'')
       \<and> newErrors (fd\<lparr>email := js ''foo@bar.com''\<rparr>) Email = None
       \<and> \<not> test_anchored emailRegex (js ''foo'')
       \<and> test_anchored emailRegex (js ''foo@bar.com'')
       \<and> emailError (fst (form_validate (d\<lparr>emailInput := js ''foo@bar.com''\<rparr>))) = emailError d"
proof -
  from assms have noshape: "\<nexists>u v w. e = u @ [at_sign] @ v @ [full_stop] @ w"
    using shape_has_at by blast
  have r: "\<not> test_search emailPattern e"
    using noshape search_needs_dot_after_at by blast
  have p: "\<not> test_anchored emailRegex e"
    using noshape anchored_needs_dot_after_at by blast
  have 1: "newErrors (fd\<lparr>email := e\<rparr>) Email \<noteq> None"
    using r by (rule newErrors_email_rejects)
  then have 2: "\<not> snd (validateForm (st\<lparr>formData := fd\<lparr>email := e\<rparr>\<rparr>))"
    by (simp add: validateForm_def Let_def)
  have 3: "emailError (fst (form_validate (d\<lparr>emailInput := e\<rparr>)))"
    using p by (simp add: form_validate_emailError)
  have 4: "\<not> snd (form_validate (d\<lparr>emailInput := e\<rparr>))"
    using p by (simp add: form_validate_snd)
  have foo: "\<not> test_search emailPattern (js ''foo'')" "trim (js ''foo'') \<noteq> []"
    by code_simp+
  have "matches emailPattern (js ''foo@bar.com'')"
    by code_simp
  then have bar: "test_search emailPattern (js ''foo@bar.com'')"
    by (rule matches_test_search)
  have bar': "trim (js ''foo@bar.com'') \<noteq> []"
    by code_simp
  have 5: "newErrors (fd\<lparr>email := js ''foo''\<rparr>) Email = Some (js ''Email is invalid'')"
    using foo by (simp add: newErrors_def truthy_def)
  have 6: "newErrors (fd\<lparr>email := js ''foo@bar.com''\<rparr>) Email = None"
    using bar bar' by (simp add: newErrors_def truthy_def)
  have 7: "\<not> test_anchored emailRegex (js ''foo'')"
    by code_simp
  have 8: "test_anchored emailRegex (js ''foo@bar.com'')"
    by code_simp
  have 9: "emailError (fst (form_validate (d\<lparr>emailInput := js ''foo@bar.com''\<rparr>))) = emailError d"
    using 8 by (simp add: form_validate_emailError)
  from 1 2 3 4 5 6 7 8 9 show ?thesis by (intro conjI)
qed

theorem email_validation_rejects_witness:
  "at_sign \<notin> set (js ''foo'')
   \<and> newErrors (emptyForm\<lparr>email := js ''foo''\<rparr>) Email \<noteq> None
   \<and> \<not> snd (validateForm (Contact_init\<lparr>formData := emptyForm\<lparr>email := js ''foo''\<rparr>\<rparr>))
   \<and> (\<nexists>u v w. js ''a.b@c'' = u @ [at_sign] @ v @ [full_stop] @ w)
   \<and> newErrors (emptyForm\<lparr>email := js ''a.b@c''\<rparr>) Email \<noteq> None"
proof -
  have a: "at_sign \<notin> set (js ''foo'')"
    by code_simp
  have b: "\<nexists>u v w. js ''a.b@c'' = u @ [at_sign] @ v @ [full_stop] @ w"
    unfolding dot_after_at_iff by code_simp
  note r1 = email_validation_rejects [OF disjI1, OF a, of emptyForm Contact_init]
  note r2 = email_validation_rejects [OF disjI2, OF b, of emptyForm]
  from r1 have 1: "newErrors (emptyForm\<lparr>email := js ''foo''\<rparr>) Email \<noteq> None"
    by (rule conjunct1)
  have 2: "\<not> snd (validateForm (Contact_init\<lparr>formData := emptyForm\<lparr>email := js ''foo''\<rparr>\<rparr>))"
    by (rule r1 [THEN conjunct2, THEN conjunct1])
  from r2 have 3: "newErrors (emptyForm\<lparr>email := js ''a.b@c''\<rparr>) Email \<noteq> None"
    by (rule conjunct1)
  from a 1 2 b 3 show ?thesis by (intro conjI)
qed

text \<open>
  Claim C3. When the name or the message is empty or holds only whitespace,
  \<open>handleSubmit\<close> returns after validation: the awaited operation is not started,
  \<open>isSubmitting\<close>, \<open>submitStatus\<close> and the field values stay as they were, and each
  blank field gets its "is required" error.
\<close>

theorem blank_field_blocks_submit:
  assumes "(\<forall>c \<in> set (name (formData st)). is_space c) \<or> (\<forall>c \<in> set (message (formData st)). is_space c)"
  shows "\<not> snd (handleSubmit_start st)
       \<and> handleSubmit out st = fst (handleSubmit_start st)
       \<and> isSubmitting (handleSubmit out st) = isSubmitting st
       \<and> submitStatus (handleSubmit out st) = submitStatus st
       \<and> formData (handleSubmit out st) = formData st
       \<and> ((\<forall>c \<in> set (name (formData st)). is_space c) \<longrightarrow>
            errors (handleSubmit out st) Name = Some (js ''Name is required''))
       \<and> ((\<forall>c \<in> set (message (formData st)). is_space c) \<longrightarrow>
            errors (handleSubmit out st) Message = Some (js ''Message is required''))"
proof -
  from assms have "trim (name (formData st)) = [] \<or> trim (message (formData st)) = []"
    by (simp add: trim_empty_iff)
  then have "\<not> snd (validateForm st)"
    by (auto simp: validateForm_snd)
  then have start: "handleSubmit_start st = (st\<lparr>errors := newErrors (formData st)\<rparr>, False)"
    by (rule handleSubmit_start_invalid)
  show ?thesis
    unfolding handleSubmit_def start
    by (simp add: newErrors_def truthy_def trim_empty_iff)
qed

theorem blank_field_blocks_submit_witness:
  "list_all is_space (js '' '')
   \<and> \<not> snd (handleSubmit_start (Contact_init\<lparr>formData := \<lparr>name = js '' '', email = js ''a@b.com'', message = js ''hi''\<rparr>\<rparr>))
   \<and> \<not> isSubmitting (handleSubmit Fulfilled (Contact_init\<lparr>formData := \<lparr>name = js '' '', email = js ''a@b.com'', message = js ''hi''\<rparr>\<rparr>))
   \<and> errors (handleSubmit Fulfilled (Contact_init\<lparr>formData := \<lparr>name = js '' '', email = js ''a@b.com'', message = js ''hi''\<rparr>\<rparr>)) Name
       = Some (js ''Name is required'')"
proof -
  let ?st = "Contact_init\<lparr>formData := \<lparr>name = js '' '', email = js ''a@b.com'', message = js ''hi''\<rparr>\<rparr>"
  have sp: "\<forall>c \<in> set (js '' ''). is_space c"
    by (simp add: js_def is_space_def)
  then have blank: "\<forall>c \<in> set (name (formData ?st)). is_space c"
    by simp
  have idle: "\<not> isSubmitting ?st"
    by (simp add: Contact_init_def)
  from blank have hyp: "(\<forall>c \<in> set (name (formData ?st)). is_space c) \<or> (\<forall>c \<in> set (message (formData ?st)). is_space c)"
    by (rule disjI1)
  note r = blank_field_blocks_submit [OF hyp, of Fulfilled]
  from r have 1: "\<not> snd (handleSubmit_start ?st)" by (rule conjunct1)
  from r idle have 2: "\<not> isSubmitting (handleSubmit Fulfilled ?st)" by blast
  from r blank have 3: "errors (handleSubmit Fulfilled ?st) Name = Some (js ''Name is required'')" by blast
  from sp have 0: "list_all is_space (js '' '')"
    by (simp only: list_all_iff)
  from 0 1 2 3 show ?thesis by (intro conjI)
qed

text \<open>
  Claim C10. \<open>handleChange\<close> on a field that has an error removes that error whatever
  the new value is; on a field without an error it leaves \<open>errors\<close> as it is. In every
  state it leaves the other keys alone and adds no error, and settling a submission
  does not touch \<open>errors\<close> either: an error comes back only when \<open>validateForm\<close> runs
  on the stored value at submit time.
\<close>

theorem change_clears_error:
  "(hasError (errors st) f \<longrightarrow> errors (handleChange f v st) f = None)
   \<and> (\<not> hasError (errors st) f \<longrightarrow> errors (handleChange f v st) = errors st)
   \<and> (\<forall>g. g \<noteq> f \<longrightarrow> errors (handleChange f v st) g = errors st g)
   \<and> (\<forall>g. errors (handleChange f v st) g \<noteq> None \<longrightarrow> errors (handleChange f v st) g = errors st g)
   \<and> (\<forall>g. hasError (errors (handleChange f v st)) g \<longrightarrow> hasError (errors st) g)
   \<and> formData (handleChange f v st) = setField f v (formData st)
   \<and> errors (fst (validateForm (handleChange f v st))) = newErrors (setField f v (formData st))
   \<and> errors (handleSubmit_settle out st) = errors st"
proof -
  have 1: "hasError (errors st) f \<longrightarrow> errors (handleChange f v st) f = None"
    by (simp add: handleChange_def Let_def)
  have 2: "\<not> hasError (errors st) f \<longrightarrow> errors (handleChange f v st) = errors st"
    by (simp add: handleChange_def Let_def)
  have 3: "\<forall>g. g \<noteq> f \<longrightarrow> errors (handleChange f v st) g = errors st g"
    by (simp add: handleChange_def Let_def)
  have 4: "\<forall>g. errors (handleChange f v st) g \<noteq> None \<longrightarrow> errors (handleChange f v st) g = errors st g"
    by (simp add: handleChange_def Let_def)
  have 5: "\<forall>g. hasError (errors (handleChange f v st)) g \<longrightarrow> hasError (errors st) g"
    by (simp add: handleChange_def Let_def hasError_def)
  have 6: "formData (handleChange f v st) = setField f v (formData st)"
    by (simp add: handleChange_def Let_def)
  have 7: "errors (fst (validateForm (handleChange f v st))) = newErrors (setField f v (formData st))"
    by (simp add: handleChange_def Let_def validateForm_fst)
  have 8: "errors (handleSubmit_settle out st) = errors st"
    by (simp add: handleSubmit_settle_def split: outcome.splits)
  from 1 2 3 4 5 6 7 8 show ?thesis by (intro conjI)
qed

theorem change_clears_error_witness:
  "hasError (errors (Contact_init\<lparr>errors := newErrors emptyForm\<rparr>)) Name
   \<and> errors (handleChange Name [] (Contact_init\<lparr>errors := newErrors emptyForm\<rparr>)) Name = None
   \<and> newErrors (formData (handleChange Name [] (Contact_init\<lparr>errors := newErrors emptyForm\<rparr>))) Name
        = Some (js ''Name is required'')
   \<and> \<not> hasError (errors Contact_init) Name
   \<and> errors (handleChange Name [] Contact_init) Name = None
   \<and> errors (handleChange Name []
         (handleChange Name [] (Contact_init\<lparr>errors := newErrors emptyForm\<rparr>))) Name = None"
proof -
  let ?st = "Contact_init\<lparr>errors := newErrors emptyForm\<rparr>"
  have h: "hasError (errors ?st) Name"
    by (simp add: hasError_def newErrors_def emptyForm_def trim_def truthy_def js_def)
  note r = change_clears_error [of ?st Name "[]"]
  from r [THEN conjunct1] h have 1: "errors (handleChange Name [] ?st) Name = None"
    by (rule mp)
  have fd: "formData (handleChange Name [] ?st) = setField Name [] (formData ?st)"
    by (rule r [THEN conjunct2, THEN conjunct2, THEN conjunct2, THEN conjunct2, THEN conjunct2,
          THEN conjunct1])
  have 2: "newErrors (formData (handleChange Name [] ?st)) Name = Some (js ''Name is required'')"
    unfolding fd by (simp add: setField_def newErrors_def trim_def truthy_def)
  have c: "\<not> hasError (errors Contact_init) Name"
    by (simp add: hasError_def Contact_init_def)
  from change_clears_error [of Contact_init Name "[]", THEN conjunct2, THEN conjunct1] c
  have "errors (handleChange Name [] Contact_init) = errors Contact_init"
    by (rule mp)
  then have 3: "errors (handleChange Name [] Contact_init) Name = None"
    by (simp add: Contact_init_def)
  from 1 have c2: "\<not> hasError (errors (handleChange Name [] ?st)) Name"
    by (simp add: hasError_def)
  from change_clears_error [of "handleChange Name [] ?st" Name "[]", THEN conjunct2, THEN conjunct1] c2
  have "errors (handleChange Name [] (handleChange Name [] ?st)) = errors (handleChange Name [] ?st)"
    by (rule mp)
  with 1 have 4: "errors (handleChange Name [] (handleChange Name [] ?st)) Name = None"
    by simp
  from h 1 2 c 3 4 show ?thesis by (intro conjI)
qed

section \<open>The theme manager\<close>

lemma dark_not_light: "js ''dark'' \<noteq> js ''light''" "js ''light'' \<noteq> []" "js ''dark'' \<noteq> []"
  by (simp_all add: js_def)

text \<open>
  Claim C4. On a page that loads without the \<open>dark-mode\<close> class (only the script adds
  it), a stored preference \<open>dark\<close> or \<open>light\<close> is the theme shown after initialisation,
  whatever the system preference is; for any non-empty stored value the result does
  not depend on the system preference; without a stored value the system preference
  decides. The value a toggle stores is shown again by the next load.
\<close>

theorem saved_theme_wins:
  assumes "\<not> darkMode d"
  shows "(\<forall>v. storedTheme d = Some v \<and> (v = js ''dark'' \<or> v = js ''light'') \<longrightarrow>
            displayedTheme (theme_init prefersDark d) = v)
       \<and> (\<forall>v. storedTheme d = Some v \<and> v \<noteq> [] \<longrightarrow> theme_init True d = theme_init False d)
       \<and> (storedTheme d = None \<longrightarrow> darkMode (theme_init prefersDark d) = prefersDark)
       \<and> displayedTheme (theme_init prefersDark (d\<lparr>storedTheme := storedTheme (theme_toggle d0)\<rparr>))
           = displayedTheme (theme_toggle d0)"
proof -
  have 1: "displayedTheme (theme_init prefersDark d) = v"
    if "storedTheme d = Some v" "v = js ''dark'' \<or> v = js ''light''" for v
    using that assms dark_not_light
    by (auto simp: theme_init_def displayedTheme_def truthy_def Let_def)
  have 2: "theme_init True d = theme_init False d" if "storedTheme d = Some v" "v \<noteq> []" for v
    using that by (simp add: theme_init_def truthy_def Let_def)
  have 3: "darkMode (theme_init prefersDark d) = prefersDark" if "storedTheme d = None"
    using that assms by (simp add: theme_init_def Let_def)
  have 4: "displayedTheme (theme_init prefersDark (d\<lparr>storedTheme := storedTheme (theme_toggle d0)\<rparr>))
           = displayedTheme (theme_toggle d0)"
    using assms dark_not_light
    by (simp add: theme_init_def theme_toggle_def displayedTheme_def truthy_def Let_def)
  from 1 2 3 4 show ?thesis by blast
qed

theorem saved_theme_wins_witness:
  "\<not> darkMode \<lparr>darkMode = False, toggleText = moon, storedTheme = Some (js ''light'')\<rparr>
   \<and> displayedTheme (theme_init True \<lparr>darkMode = False, toggleText = moon, storedTheme = Some (js ''light'')\<rparr>) = js ''light''
   \<and> displayedTheme (theme_init False \<lparr>darkMode = False, toggleText = moon, storedTheme = Some (js ''dark'')\<rparr>) = js ''dark''"
proof -
  let ?l = "\<lparr>darkMode = False, toggleText = moon, storedTheme = Some (js ''light'')\<rparr>"
  let ?d = "\<lparr>darkMode = False, toggleText = moon, storedTheme = Some (js ''dark'')\<rparr>"
  have f: "\<not> darkMode ?l" "\<not> darkMode ?d" by simp_all
  have 1: "displayedTheme (theme_init True ?l) = js ''light''"
    using saved_theme_wins [OF f(1), of True, THEN conjunct1] by simp
  have 2: "displayedTheme (theme_init False ?d) = js ''dark''"
    using saved_theme_wins [OF f(2), of False, THEN conjunct1] by simp
  from f(1) 1 2 show ?thesis by (intro conjI)
qed

text \<open>
  Claim C5. Two clicks on the toggle bring back the theme shown before, and after each
  click the stored value names the theme shown.
\<close>

theorem toggle_twice:
  "displayedTheme (theme_toggle (theme_toggle d)) = displayedTheme d
   \<and> darkMode (theme_toggle (theme_toggle d)) = darkMode d
   \<and> storedTheme (theme_toggle d) = Some (displayedTheme (theme_toggle d))
   \<and> storedTheme (theme_toggle (theme_toggle d)) = Some (displayedTheme (theme_toggle (theme_toggle d)))"
  by (simp add: theme_toggle_def displayedTheme_def Let_def)

theorem toggle_twice_witness:
  "displayedTheme (theme_toggle (theme_toggle \<lparr>darkMode = False, toggleText = moon, storedTheme = None\<rparr>)) = js ''light''
   \<and> storedTheme (theme_toggle \<lparr>darkMode = False, toggleText = moon, storedTheme = None\<rparr>) = Some (js ''dark'')"
  using toggle_twice [of "\<lparr>darkMode = False, toggleText = moon, storedTheme = None\<rparr>"]
  by (simp add: displayedTheme_def theme_toggle_def)

section \<open>The reveal and skill-bar observers\<close>

lemma fst_deliveries_Cons:
  "fst (deliveries cb (b # bs) ob) = fst (deliveries cb bs (fst (deliver cb b ob)))"
  by (simp split: prod.splits)

lemma snd_deliveries_Cons:
  "snd (deliveries cb (b # bs) ob) = snd (deliver cb b ob) # snd (deliveries cb bs (fst (deliver cb b ob)))"
  by (simp split: prod.splits)

lemma fold_timeline_page:
  "x \<in> page (fst acc) \<Longrightarrow> x \<in> page (fst (fold timeline_entry es acc))"
  by (induction es arbitrary: acc) (auto simp: timeline_entry_def split: prod.splits)

lemma fold_Experience_page:
  "x \<in> page (fst acc) \<Longrightarrow> x \<in> page (fst (fold Experience_entry es acc))"
  by (induction es arbitrary: acc) (auto simp: Experience_entry_def split: prod.splits)

lemma deliveries_timeline_page:
  "x \<in> page ob \<Longrightarrow> x \<in> page (fst (deliveries timelineObserver bs ob))"
proof (induction bs arbitrary: ob)
  case Nil
  then show ?case by simp
next
  case (Cons b bs)
  have "x \<in> page (fst (deliver timelineObserver b ob))"
    using Cons.prems fold_timeline_page [of x "(ob, [])"]
    by (simp add: deliver_def timelineObserver_def)
  from Cons.IH [OF this] show ?case
    by (simp only: fst_deliveries_Cons)
qed

lemma deliveries_Experience_page:
  "x \<in> page ob \<Longrightarrow> x \<in> page (fst (deliveries Experience_observer bs ob))"
proof (induction bs arbitrary: ob)
  case Nil
  then show ?case by simp
next
  case (Cons b bs)
  have "x \<in> page (fst (deliver Experience_observer b ob))"
    using Cons.prems fold_Experience_page [of x "(ob, [])"]
    by (simp add: deliver_def Experience_observer_def)
  from Cons.IH [OF this] show ?case
    by (simp only: fst_deliveries_Cons)
qed

lemma fold_timeline:
  "snd (fold timeline_entry es (ob, done)) = done @ intersecting es
   \<and> targets (fst (fold timeline_entry es (ob, done))) = targets ob - set (intersecting es)
   \<and> page (fst (fold timeline_entry es (ob, done))) = page ob \<union> set (intersecting es)"
  by (induction es arbitrary: ob "done")
     (auto simp: timeline_entry_def intersecting_def)

lemma fold_skill:
  "snd (fold skill_entry es (ob, done)) = done @ intersecting es
   \<and> targets (fst (fold skill_entry es (ob, done))) = targets ob - set (intersecting es)"
  by (induction es arbitrary: ob "done")
     (auto simp: skill_entry_def intersecting_def)

lemma fold_Experience:
  "snd (fold Experience_entry es (ob, done)) = done @ intersecting es
   \<and> targets (fst (fold Experience_entry es (ob, done))) = targets ob
   \<and> page (fst (fold Experience_entry es (ob, done))) = page ob \<union> set (intersecting es)"
  by (induction es arbitrary: ob "done")
     (auto simp: Experience_entry_def intersecting_def)

lemma fold_Skills:
  "snd (fold Skills_entry es (ob, done)) = done @ intersecting es
   \<and> targets (fst (fold Skills_entry es (ob, done))) = targets ob"
  by (induction es arbitrary: ob "done")
     (auto simp: Skills_entry_def intersecting_def)


lemma deliver_timeline:
  "snd (deliver timelineObserver b ob) = intersecting (filter (\<lambda>e. target e \<in> targets ob) b)"
  "targets (fst (deliver timelineObserver b ob)) =
     targets ob - set (intersecting (filter (\<lambda>e. target e \<in> targets ob) b))"
  by (simp_all add: deliver_def timelineObserver_def fold_timeline)

lemma deliver_skill:
  "snd (deliver skillObserver b ob) = intersecting (filter (\<lambda>e. target e \<in> targets ob) b)"
  "targets (fst (deliver skillObserver b ob)) =
     targets ob - set (intersecting (filter (\<lambda>e. target e \<in> targets ob) b))"
  by (simp_all add: deliver_def skillObserver_def fold_skill)

lemma intersecting_observed:
  "x \<in> set (intersecting (filter (\<lambda>e. target e \<in> T) b)) \<Longrightarrow> x \<in> T"
  by (auto simp: intersecting_def)

lemma unobserved_never_marked:
  assumes snd: "\<And>b ob. snd (deliver cb b ob) = intersecting (filter (\<lambda>e. target e \<in> targets ob) b)"
    and fst: "\<And>b ob. targets (fst (deliver cb b ob)) =
                targets ob - set (intersecting (filter (\<lambda>e. target e \<in> targets ob) b))"
    and x: "x \<notin> targets ob"
  shows "\<forall>t \<in> set (snd (deliveries cb bs ob)). x \<notin> set t"
  using x
proof (induction bs arbitrary: ob)
  case Nil
  then show ?case by simp
next
  case (Cons b bs)
  from Cons.prems have now: "x \<notin> set (snd (deliver cb b ob))"
    unfolding snd using intersecting_observed by blast
  from Cons.prems have "x \<notin> targets (fst (deliver cb b ob))"
    unfolding fst by simp
  from Cons.IH [OF this] now show ?case
    by (simp only: snd_deliveries_Cons set_simps ball_simps) simp
qed

lemma marked_then_unobserved:
  assumes snd: "\<And>b ob. snd (deliver cb b ob) = intersecting (filter (\<lambda>e. target e \<in> targets ob) b)"
    and fst: "\<And>b ob. targets (fst (deliver cb b ob)) =
                targets ob - set (intersecting (filter (\<lambda>e. target e \<in> targets ob) b))"
    and x: "x \<in> set (snd (deliver cb b ob))"
  shows "x \<notin> targets (fst (deliver cb b ob))"
  using x unfolding fst snd by simp

lemma fill_bar_twice: "fill_bar (fill_bar p) = fill_bar p"
  by (simp add: fill_bar_def split: option.splits)

lemma Experience_again:
  "fst (Experience_observer [e] (fst (Experience_observer [e] ob))) = fst (Experience_observer [e] ob)"
  by (simp add: Experience_observer_def Experience_entry_def)

lemma Skills_again:
  "fst (Skills_observer [e] (fst (Skills_observer [e] ob))) = fst (Skills_observer [e] ob)"
  by (simp add: Skills_observer_def Skills_entry_def fill_bar_twice comp_def)

lemma deliver_Experience_targets: "targets (fst (deliver Experience_observer b ob)) = targets ob"
  by (simp add: deliver_def Experience_observer_def fold_Experience)

lemma deliver_Skills_targets: "targets (fst (deliver Skills_observer b ob)) = targets ob"
  by (simp add: deliver_def Skills_observer_def fold_Skills)

text \<open>
  Claim C6, as stated: once an element is marked, it is no longer observed and no later
  callback marks it. This fails in the Experience and Skills components: after the
  first intersecting entry the element is still a target, and when it leaves and enters
  the viewport again the callback marks it a second time.
\<close>

theorem Experience_marks_again:
  "snd (deliveries Experience_observer
          [[\<lparr>target = 0, isIntersecting = True\<rparr>],
           [\<lparr>target = 0, isIntersecting = False\<rparr>],
           [\<lparr>target = 0, isIntersecting = True\<rparr>]]
          \<lparr>targets = {0}, page = {}\<rparr>) = [[0], [], [0]]
   \<and> targets (fst (deliver Experience_observer [\<lparr>target = 0, isIntersecting = True\<rparr>] \<lparr>targets = {0}, page = {}\<rparr>)) = {0}
   \<and> snd (deliveries Skills_observer
          [[\<lparr>target = 0, isIntersecting = True\<rparr>],
           [\<lparr>target = 0, isIntersecting = False\<rparr>],
           [\<lparr>target = 0, isIntersecting = True\<rparr>]]
          \<lparr>targets = {0}, page = (\<lambda>_. [])\<rparr>) = [[0], [], [0]]
   \<and> targets (fst (deliver Skills_observer [\<lparr>target = 0, isIntersecting = True\<rparr>] \<lparr>targets = {0}, page = (\<lambda>_. [])\<rparr>)) = {0}"
  by (simp add: deliver_def Experience_observer_def Experience_entry_def Skills_observer_def Skills_entry_def)

text \<open>
  Claim C6, amended. In personal.js (\<open>timelineObserver\<close>, \<open>skillObserver\<close>) the callback
  that marks an element also unobserves it, and no callback of any later delivery marks
  it. In the Experience and Skills components every delivery leaves the targets as they
  were, and marking an element again leaves the page as the first marking left it.
\<close>

theorem marked_once_or_again_unchanged:
  "(x \<in> set (snd (deliver timelineObserver batch tm)) \<longrightarrow>
      x \<notin> targets (fst (deliver timelineObserver batch tm))
      \<and> (\<forall>t \<in> set (snd (deliveries timelineObserver later (fst (deliver timelineObserver batch tm)))).
            x \<notin> set t))
   \<and> (x \<in> set (snd (deliver skillObserver batch sk)) \<longrightarrow>
      x \<notin> targets (fst (deliver skillObserver batch sk))
      \<and> (\<forall>t \<in> set (snd (deliveries skillObserver later (fst (deliver skillObserver batch sk)))).
            x \<notin> set t))
   \<and> targets (fst (deliver Experience_observer batch ex)) = targets ex
   \<and> targets (fst (deliver Skills_observer batch ss)) = targets ss
   \<and> fst (Experience_observer [e] (fst (Experience_observer [e] ex))) = fst (Experience_observer [e] ex)
   \<and> fst (Skills_observer [e] (fst (Skills_observer [e] ss))) = fst (Skills_observer [e] ss)"
proof -
  have 1: "x \<notin> targets (fst (deliver timelineObserver batch tm))
      \<and> (\<forall>t \<in> set (snd (deliveries timelineObserver later (fst (deliver timelineObserver batch tm)))).
            x \<notin> set t)"
    if m: "x \<in> set (snd (deliver timelineObserver batch tm))"
  proof -
    have u: "x \<notin> targets (fst (deliver timelineObserver batch tm))"
      using deliver_timeline m by (rule marked_then_unobserved)
    show ?thesis
      using u unobserved_never_marked [OF deliver_timeline u] by blast
  qed
  have 2: "x \<notin> targets (fst (deliver skillObserver batch sk))
      \<and> (\<forall>t \<in> set (snd (deliveries skillObserver later (fst (deliver skillObserver batch sk)))).
            x \<notin> set t)"
    if m: "x \<in> set (snd (deliver skillObserver batch sk))"
  proof -
    have u: "x \<notin> targets (fst (deliver skillObserver batch sk))"
      using deliver_skill m by (rule marked_then_unobserved)
    show ?thesis
      using u unobserved_never_marked [OF deliver_skill u] by blast
  qed
  from 1 2 deliver_Experience_targets [of batch ex] deliver_Skills_targets [of batch ss]
    Experience_again [of e ex] Skills_again [of e ss]
  show ?thesis by blast
qed

theorem marked_once_or_again_unchanged_witness:
  "0 \<in> set (snd (deliver timelineObserver [\<lparr>target = 0, isIntersecting = True\<rparr>] \<lparr>targets = {0, 1}, page = {}\<rparr>))
   \<and> 0 \<notin> targets (fst (deliver timelineObserver [\<lparr>target = 0, isIntersecting = True\<rparr>] \<lparr>targets = {0, 1}, page = {}\<rparr>))
   \<and> list_all (\<lambda>t. 0 \<notin> set t)
        (snd (deliveries timelineObserver
               [[\<lparr>target = 0, isIntersecting = False\<rparr>],
                [\<lparr>target = 0, isIntersecting = True\<rparr>, \<lparr>target = 1, isIntersecting = True\<rparr>]]
               (fst (deliver timelineObserver [\<lparr>target = 0, isIntersecting = True\<rparr>] \<lparr>targets = {0, 1}, page = {}\<rparr>))))
   \<and> 0 \<in> set (snd (deliver skillObserver [\<lparr>target = 0, isIntersecting = True\<rparr>] \<lparr>targets = {0}, page = []\<rparr>))
   \<and> 0 \<notin> targets (fst (deliver skillObserver [\<lparr>target = 0, isIntersecting = True\<rparr>] \<lparr>targets = {0}, page = []\<rparr>))"
proof -
  let ?b = "[\<lparr>target = 0, isIntersecting = True\<rparr>]"
  let ?later = "[[\<lparr>target = 0, isIntersecting = False\<rparr>],
                [\<lparr>target = 0, isIntersecting = True\<rparr>, \<lparr>target = 1, isIntersecting = True\<rparr>]]"
  let ?tm = "\<lparr>targets = {0, 1}, page = {}\<rparr> :: elem set observer"
  let ?sk = "\<lparr>targets = {0}, page = []\<rparr> :: progress list observer"
  note r = marked_once_or_again_unchanged [where x = 0 and batch = ?b and tm = ?tm and later = ?later and sk = ?sk]
  have m1: "0 \<in> set (snd (deliver timelineObserver ?b ?tm))"
    by (simp add: deliver_def timelineObserver_def timeline_entry_def)
  have m2: "0 \<in> set (snd (deliver skillObserver ?b ?sk))"
    by (simp add: deliver_def skillObserver_def skill_entry_def)
  from r [THEN conjunct1] m1
  have t: "0 \<notin> targets (fst (deliver timelineObserver ?b ?tm))
      \<and> (\<forall>t \<in> set (snd (deliveries timelineObserver ?later (fst (deliver timelineObserver ?b ?tm)))). 0 \<notin> set t)"
    by (rule mp)
  from t have t1: "0 \<notin> targets (fst (deliver timelineObserver ?b ?tm))"
    by (rule conjunct1)
  from t [THEN conjunct2] have t2: "list_all (\<lambda>t. 0 \<notin> set t)
      (snd (deliveries timelineObserver ?later (fst (deliver timelineObserver ?b ?tm))))"
    by (simp only: list_all_iff)
  from r [THEN conjunct2, THEN conjunct1] m2
  have "0 \<notin> targets (fst (deliver skillObserver ?b ?sk))
      \<and> (\<forall>t \<in> set (snd (deliveries skillObserver ?later (fst (deliver skillObserver ?b ?sk)))). 0 \<notin> set t)"
    by (rule mp)
  then have s1: "0 \<notin> targets (fst (deliver skillObserver ?b ?sk))"
    by (rule conjunct1)
  from m1 t1 t2 m2 s1 show ?thesis by (intro conjI)
qed

text \<open>
  Claim C7. An element that carries the \<open>visible\<close> class keeps it through every later
  sequence of deliveries, intersecting or not, in personal.js and in the Experience
  component: no callback removes the class.
\<close>

theorem visible_stays:
  assumes "x \<in> page ob"
  shows "x \<in> page (fst (deliveries timelineObserver batches ob))
       \<and> x \<in> page (fst (deliveries Experience_observer batches ob))"
  using assms deliveries_timeline_page deliveries_Experience_page by blast

theorem visible_stays_witness:
  "0 \<in> page (fst (deliver timelineObserver [\<lparr>target = 0, isIntersecting = True\<rparr>] \<lparr>targets = {0, 1}, page = {}\<rparr>))
   \<and> 0 \<in> page (fst (deliveries timelineObserver
           [[\<lparr>target = 0, isIntersecting = False\<rparr>, \<lparr>target = 1, isIntersecting = True\<rparr>], [\<lparr>target = 0, isIntersecting = False\<rparr>]]
           (fst (deliver timelineObserver [\<lparr>target = 0, isIntersecting = True\<rparr>] \<lparr>targets = {0, 1}, page = {}\<rparr>))))
   \<and> 0 \<in> page (fst (deliveries Experience_observer
           [[\<lparr>target = 0, isIntersecting = False\<rparr>, \<lparr>target = 1, isIntersecting = True\<rparr>], [\<lparr>target = 0, isIntersecting = False\<rparr>]]
           (fst (deliver timelineObserver [\<lparr>target = 0, isIntersecting = True\<rparr>] \<lparr>targets = {0, 1}, page = {}\<rparr>))))
   \<and> 0 \<in> targets (fst (deliver Experience_observer [\<lparr>target = 0, isIntersecting = True\<rparr>] \<lparr>targets = {0, 1}, page = {}\<rparr>))
   \<and> 0 \<in> page (fst (deliver Experience_observer [\<lparr>target = 0, isIntersecting = True\<rparr>] \<lparr>targets = {0, 1}, page = {}\<rparr>))
   \<and> 0 \<in> page (fst (deliveries Experience_observer
           [[\<lparr>target = 0, isIntersecting = False\<rparr>, \<lparr>target = 1, isIntersecting = True\<rparr>], [\<lparr>target = 0, isIntersecting = False\<rparr>]]
           (fst (deliver Experience_observer [\<lparr>target = 0, isIntersecting = True\<rparr>] \<lparr>targets = {0, 1}, page = {}\<rparr>))))"
proof -
  have v: "0 \<in> page (fst (deliver timelineObserver [\<lparr>target = 0, isIntersecting = True\<rparr>] \<lparr>targets = {0, 1}, page = {}\<rparr>))"
    by (simp add: deliver_def timelineObserver_def timeline_entry_def)
  have o: "0 \<in> targets (fst (deliver Experience_observer [\<lparr>target = 0, isIntersecting = True\<rparr>] \<lparr>targets = {0, 1}, page = {}\<rparr>))"
    by (simp add: deliver_def Experience_observer_def Experience_entry_def)
  have w: "0 \<in> page (fst (deliver Experience_observer [\<lparr>target = 0, isIntersecting = True\<rparr>] \<lparr>targets = {0, 1}, page = {}\<rparr>))"
    by (simp add: deliver_def Experience_observer_def Experience_entry_def)
  note r = visible_stays [OF v]
  note q = visible_stays [OF w]
  from v r [THEN conjunct1] r [THEN conjunct2] o w q [THEN conjunct2] show ?thesis by (intro conjI)
qed

section \<open>The project gallery\<close>

lemma rendered_modals_le: "length (rendered_modals st) \<le> 1"
  by (simp add: rendered_modals_def split: option.splits)

text \<open>
  Claim C8, as stated: at most one modal is open, and a card click while a modal is open
  replaces the bound project. This fails in personal.js: the listener appends a new modal
  element on every click, so a second click leaves two modals in the page.
\<close>

theorem modals_stack_in_personal_js:
  "card_click (js ''E-commerce Platform'') (card_click (js ''Personal Portfolio'') [])
     = [js ''Personal Portfolio'', js ''E-commerce Platform'']
   \<and> length (card_click (js ''E-commerce Platform'') (card_click (js ''Personal Portfolio'') [])) = 2"
  by (simp add: card_click_def)

text \<open>
  Claim C8, amended. The Projects component renders at most one modal after any sequence
  of card and close clicks, and a card click while a modal is open binds the modal to the
  clicked project; closing renders none. In personal.js every card click adds one modal
  element after those already in the page, and the close control or backdrop of a modal
  removes that modal and leaves the others in place, in their order.
\<close>

theorem one_modal_in_Projects:
  "length (rendered_modals (Projects_run evs)) \<le> 1
   \<and> rendered_modals (handleProjectClick q (handleProjectClick p st)) = [q]
   \<and> (n < length projects \<longrightarrow>
        rendered_modals (Projects_event (CardClick n) st) = [projects ! n])
   \<and> rendered_modals (closeModal st) = []
   \<and> card_click t modals = modals @ [t]
   \<and> length (card_click t modals) = length modals + 1
   \<and> (k < length modals \<longrightarrow>
        length (modal_remove k modals) = length modals - 1
        \<and> (\<forall>i. i < k \<longrightarrow> modal_remove k modals ! i = modals ! i)
        \<and> (\<forall>i. k \<le> i \<and> i < length modals - 1 \<longrightarrow> modal_remove k modals ! i = modals ! Suc i))"
proof -
  have 1: "length (rendered_modals (Projects_run evs)) \<le> 1"
    by (rule rendered_modals_le)
  have 2: "rendered_modals (handleProjectClick q (handleProjectClick p st)) = [q]"
    by (simp add: handleProjectClick_def rendered_modals_def)
  have 3: "n < length projects \<longrightarrow>
        rendered_modals (Projects_event (CardClick n) st) = [projects ! n]"
    by (simp add: Projects_event_def handleProjectClick_def rendered_modals_def)
  have 4: "rendered_modals (closeModal st) = []"
    by (simp add: closeModal_def rendered_modals_def)
  have 5: "card_click t modals = modals @ [t]" "length (card_click t modals) = length modals + 1"
    by (simp_all add: card_click_def)
  have 6: "k < length modals \<longrightarrow>
        length (modal_remove k modals) = length modals - 1
        \<and> (\<forall>i. i < k \<longrightarrow> modal_remove k modals ! i = modals ! i)
        \<and> (\<forall>i. k \<le> i \<and> i < length modals - 1 \<longrightarrow> modal_remove k modals ! i = modals ! Suc i)"
  proof
    assume k: "k < length modals"
    have a: "length (modal_remove k modals) = length modals - 1"
      using k by (auto simp: modal_remove_def)
    have b: "modal_remove k modals ! i = modals ! i" if "i < k" for i
      using that k by (simp add: modal_remove_def nth_append)
    have c: "modal_remove k modals ! i = modals ! Suc i" if "k \<le> i \<and> i < length modals - 1" for i
    proof -
      from that k have "Suc k + (i - k) = Suc i" by simp
      with that k show ?thesis
        by (simp add: modal_remove_def nth_append min_def)
    qed
    from a b c
    show "length (modal_remove k modals) = length modals - 1
        \<and> (\<forall>i. i < k \<longrightarrow> modal_remove k modals ! i = modals ! i)
        \<and> (\<forall>i. k \<le> i \<and> i < length modals - 1 \<longrightarrow> modal_remove k modals ! i = modals ! Suc i)"
      by blast
  qed
  from 1 2 3 4 5 6 show ?thesis by (intro conjI)
qed

theorem one_modal_in_Projects_witness:
  "rendered_modals (Projects_run [CardClick 0, CardClick 1]) = [projects ! 1]
   \<and> length (rendered_modals (Projects_run [CardClick 0, CardClick 1])) \<le> 1
   \<and> length (modal_remove 0 [js ''Personal Portfolio'']) = 0
   \<and> length (modal_remove 0 [js ''Personal Portfolio'', js ''E-commerce Platform'']) = 1
   \<and> modal_remove 0 [js ''Personal Portfolio'', js ''E-commerce Platform''] ! 0 = js ''E-commerce Platform''
   \<and> length (modal_remove 1 [js ''Personal Portfolio'', js ''E-commerce Platform'']) = 1
   \<and> modal_remove 1 [js ''Personal Portfolio'', js ''E-commerce Platform''] ! 0 = js ''Personal Portfolio''"
proof -
  let ?two = "[js ''Personal Portfolio'', js ''E-commerce Platform'']"
  note r = one_modal_in_Projects [where evs = "[CardClick 0, CardClick 1]" and k = 0
      and modals = "[js ''Personal Portfolio'']" and q = "projects ! 1" and p = "projects ! 0" and st = Projects_init]
  have run: "Projects_run [CardClick 0, CardClick 1]
      = handleProjectClick (projects ! 1) (handleProjectClick (projects ! 0) Projects_init)"
    by (simp add: Projects_run_def Projects_event_def projects_def)
  have 1: "rendered_modals (Projects_run [CardClick 0, CardClick 1]) = [projects ! 1]"
    unfolding run by (rule r [THEN conjunct2, THEN conjunct1])
  have 2: "length (rendered_modals (Projects_run [CardClick 0, CardClick 1])) \<le> 1"
    by (rule r [THEN conjunct1])
  have 3: "length (modal_remove 0 [js ''Personal Portfolio'']) = 0"
    using r [THEN conjunct2, THEN conjunct2, THEN conjunct2, THEN conjunct2, THEN conjunct2, THEN conjunct2]
    by simp
  have k0: "0 < length ?two" and k1: "1 < length ?two"
    by simp_all
  note r0 = one_modal_in_Projects [where k = 0 and modals = ?two, THEN conjunct2, THEN conjunct2,
      THEN conjunct2, THEN conjunct2, THEN conjunct2, THEN conjunct2, THEN mp, OF k0]
  note r1 = one_modal_in_Projects [where k = 1 and modals = ?two, THEN conjunct2, THEN conjunct2,
      THEN conjunct2, THEN conjunct2, THEN conjunct2, THEN conjunct2, THEN mp, OF k1]
  have 4: "length (modal_remove 0 ?two) = 1"
    using r0 [THEN conjunct1] by simp
  have 5: "modal_remove 0 ?two ! 0 = js ''E-commerce Platform''"
    using r0 [THEN conjunct2, THEN conjunct2, THEN spec, of 0] by simp
  have 6: "length (modal_remove 1 ?two) = 1"
    using r1 [THEN conjunct1] by simp
  have 7: "modal_remove 1 ?two ! 0 = js ''Personal Portfolio''"
    using r1 [THEN conjunct2, THEN conjunct1, THEN spec, of 0] by simp
  from 1 2 3 4 5 6 7 show ?thesis by (intro conjI)
qed

section \<open>The typing effect\<close>

lemma Hero_run_index:
  "currentIndex ((Hero_tick ^^ n) Hero_init) = min n (length fullText)"
  by (induction n) (auto simp: Hero_init_def Hero_tick_def)

lemma Hero_run_text:
  "heroText ((Hero_tick ^^ n) Hero_init) = take (currentIndex ((Hero_tick ^^ n) Hero_init)) fullText"
  by (induction n) (auto simp: Hero_init_def Hero_tick_def take_Suc_conv_app_nth)

lemma Hero_run_stop:
  assumes "length fullText \<le> n"
  shows "Hero_tick ((Hero_tick ^^ n) Hero_init) = (Hero_tick ^^ n) Hero_init"
proof -
  from assms have "\<not> currentIndex ((Hero_tick ^^ n) Hero_init) < length fullText"
    by (simp add: Hero_run_index)
  then show ?thesis
    unfolding Hero_tick_def [of "(Hero_tick ^^ n) Hero_init"] by simp
qed

lemma append_text_nodes: "append_text s (text_nodes u) = text_nodes (u @ s)"
  by (simp add: append_text_def text_nodes_def)

lemma parsed_append: "parsed (u @ v) = parsed u @ parsed v"
  by (simp add: parsed_def)

lemma parsed_take_Suc:
  "i < length s \<Longrightarrow> parsed (take (Suc i) s) = parsed (take i s) @ parsed_char (s ! i)"
  by (simp add: take_Suc_conv_app_nth parsed_def)

lemma parsed_plain:
  "0 \<notin> set s \<Longrightarrow> 0x0D \<notin> set s \<Longrightarrow> parsed s = s"
  by (induction s) (auto simp: parsed_def parsed_char_def)

lemma innerHTML_text_nodes: "innerHTML (text_nodes u) = html_escape u"
  by (simp add: innerHTML_def text_nodes_def html_escape_def)

lemma typing_inv_init: "typing_inv originalText typing_init"
  by (simp add: typing_inv_def typing_init_def parsed_def text_nodes_def)

lemma typing_inv_tick:
  assumes "typing_inv originalText t"
  shows "typing_inv originalText (typing_tick originalText t)"
proof (cases "timerPending t")
  case False
  with assms show ?thesis by (simp add: typing_tick_def)
next
  case True
  with assms have h: "heading t = text_nodes (parsed (take (charIndex t) originalText))"
    and le: "charIndex t \<le> length originalText"
    by (simp_all add: typing_inv_def)
  show ?thesis
  proof (cases "charIndex t < length originalText")
    case less: True
    have "append_char (originalText ! charIndex t) (heading t)
        = text_nodes (parsed (take (Suc (charIndex t)) originalText))"
      unfolding append_char_def h append_text_nodes parsed_take_Suc [OF less] ..
    with True less show ?thesis
      by (simp add: typing_inv_def typing_tick_def typeWriter_def)
  next
    case False
    with le have "charIndex t = length originalText" by simp
    with True h show ?thesis
      by (simp add: typing_inv_def typing_tick_def typeWriter_def append_cursor_def)
  qed
qed

lemma typing_inv_run: "typing_inv originalText ((typing_tick originalText ^^ n) typing_init)"
  by (induction n) (simp_all add: typing_inv_init typing_inv_tick)

lemma typing_tick_index:
  assumes "typing_inv originalText t"
  shows "charIndex (typing_tick originalText t)
       = (if charIndex t < length originalText then charIndex t + 1 else charIndex t)"
  using assms by (auto simp: typing_inv_def typing_tick_def typeWriter_def)

lemma typing_run_index:
  "charIndex ((typing_tick originalText ^^ n) typing_init) = min n (length originalText)"
proof (induction n)
  case 0
  show ?case by (simp add: typing_init_def)
next
  case (Suc n)
  have "charIndex ((typing_tick originalText ^^ Suc n) typing_init)
      = charIndex (typing_tick originalText ((typing_tick originalText ^^ n) typing_init))"
    by simp
  also have "\<dots> = (if min n (length originalText) < length originalText
                    then min n (length originalText) + 1 else min n (length originalText))"
    unfolding typing_tick_index [OF typing_inv_run] Suc ..
  also have "\<dots> = min (Suc n) (length originalText)"
    by auto
  finally show ?case .
qed

lemma typing_tick_pending:
  "timerPending (typing_tick originalText t) \<longleftrightarrow> timerPending t \<and> charIndex t < length originalText"
  by (simp add: typing_tick_def typeWriter_def)

lemma typing_run_pending:
  "timerPending ((typing_tick originalText ^^ n) typing_init) \<longleftrightarrow> n \<le> length originalText"
proof (induction n)
  case 0
  show ?case by (simp add: typing_init_def)
next
  case (Suc n)
  have "timerPending ((typing_tick originalText ^^ Suc n) typing_init)
      \<longleftrightarrow> timerPending (typing_tick originalText ((typing_tick originalText ^^ n) typing_init))"
    by simp
  also have "\<dots> \<longleftrightarrow> n \<le> length originalText \<and> min n (length originalText) < length originalText"
    unfolding typing_tick_pending Suc typing_run_index ..
  also have "\<dots> \<longleftrightarrow> Suc n \<le> length originalText"
    by auto
  finally show ?case .
qed

lemma typing_run_heading:
  "heading ((typing_tick originalText ^^ n) typing_init)
     = text_nodes (parsed (take n originalText))
       @ (if n \<le> length originalText then [] else [CursorSpan])"
  using typing_inv_run [of originalText n]
  unfolding typing_inv_def typing_run_index typing_run_pending
  by (auto simp: min_def)

lemma typing_run_stop:
  assumes "length originalText < n"
  shows "typing_tick originalText ((typing_tick originalText ^^ n) typing_init)
       = (typing_tick originalText ^^ n) typing_init"
proof -
  from assms have "\<not> timerPending ((typing_tick originalText ^^ n) typing_init)"
    by (simp add: typing_run_pending)
  then show ?thesis
    by (simp add: typing_tick_def)
qed

text \<open>
  Claim C9, as stated: the cursor marker is appended when the count reaches the length of
  the text. This fails in the Hero component: the cursor span is part of the heading in
  every render, also the first one, where no character has been revealed.
\<close>

theorem Hero_cursor_from_start:
  "currentIndex Hero_init < length fullText
   \<and> Hero_render Hero_init = [TextNode [], CursorSpan]"
  by (simp add: Hero_init_def Hero_render_def fullText_def js_def)

text \<open>
  Claim C9, amended. After \<open>n\<close> ticks the count of revealed characters is \<open>n\<close>, capped at
  the length of the text: it stays between 0 and the length and each tick below the
  length adds exactly one. In the Hero component the heading is, after every tick, the
  prefix of that length followed by the cursor span, and once the count has reached the
  length a tick changes nothing. In personal.js the heading holds the prefix of that
  length as the parser read it (the prefix itself when the text has no NUL and no CR),
  \<open>innerHTML\<close> is that text escaped, the tick after the last character appends the
  cursor span and starts no timer, and later ticks change nothing.
\<close>

theorem typing_effect:
  "currentIndex ((Hero_tick ^^ n) Hero_init) = min n (length fullText)
   \<and> heroText ((Hero_tick ^^ n) Hero_init) = take (min n (length fullText)) fullText
   \<and> Hero_render ((Hero_tick ^^ n) Hero_init)
       = [TextNode (take (min n (length fullText)) fullText), CursorSpan]
   \<and> (length fullText \<le> n \<longrightarrow>
        Hero_render ((Hero_tick ^^ n) Hero_init) = [TextNode fullText, CursorSpan]
        \<and> Hero_tick ((Hero_tick ^^ n) Hero_init) = (Hero_tick ^^ n) Hero_init)
   \<and> charIndex ((typing_tick originalText ^^ n) typing_init) = min n (length originalText)
   \<and> (n \<le> length originalText \<longrightarrow>
        heading ((typing_tick originalText ^^ n) typing_init) = text_nodes (parsed (take n originalText))
        \<and> innerHTML (heading ((typing_tick originalText ^^ n) typing_init))
            = html_escape (parsed (take n originalText))
        \<and> timerPending ((typing_tick originalText ^^ n) typing_init))
   \<and> (length originalText < n \<longrightarrow>
        heading ((typing_tick originalText ^^ n) typing_init)
            = text_nodes (parsed originalText) @ [CursorSpan]
        \<and> innerHTML (heading ((typing_tick originalText ^^ n) typing_init))
            = html_escape (parsed originalText) @ cursorMarkup
        \<and> \<not> timerPending ((typing_tick originalText ^^ n) typing_init)
        \<and> typing_tick originalText ((typing_tick originalText ^^ n) typing_init)
            = (typing_tick originalText ^^ n) typing_init)
   \<and> (0 \<notin> set originalText \<and> 0x0D \<notin> set originalText \<longrightarrow>
        parsed (take n originalText) = take n originalText)"
proof -
  have 1: "currentIndex ((Hero_tick ^^ n) Hero_init) = min n (length fullText)"
    by (rule Hero_run_index)
  have 2: "heroText ((Hero_tick ^^ n) Hero_init) = take (min n (length fullText)) fullText"
    using Hero_run_text [of n] unfolding Hero_run_index .
  have 3: "Hero_render ((Hero_tick ^^ n) Hero_init)
       = [TextNode (take (min n (length fullText)) fullText), CursorSpan]"
    unfolding Hero_render_def 2 ..
  have 4: "length fullText \<le> n \<longrightarrow>
        Hero_render ((Hero_tick ^^ n) Hero_init) = [TextNode fullText, CursorSpan]
        \<and> Hero_tick ((Hero_tick ^^ n) Hero_init) = (Hero_tick ^^ n) Hero_init"
    using 3 Hero_run_stop [of n] by simp
  have 5: "charIndex ((typing_tick originalText ^^ n) typing_init) = min n (length originalText)"
    by (rule typing_run_index)
  have 6: "n \<le> length originalText \<longrightarrow>
        heading ((typing_tick originalText ^^ n) typing_init) = text_nodes (parsed (take n originalText))
        \<and> innerHTML (heading ((typing_tick originalText ^^ n) typing_init))
            = html_escape (parsed (take n originalText))
        \<and> timerPending ((typing_tick originalText ^^ n) typing_init)"
    by (simp add: typing_run_heading typing_run_pending innerHTML_text_nodes)
  have 7: "length originalText < n \<longrightarrow>
        heading ((typing_tick originalText ^^ n) typing_init)
            = text_nodes (parsed originalText) @ [CursorSpan]
        \<and> innerHTML (heading ((typing_tick originalText ^^ n) typing_init))
            = html_escape (parsed originalText) @ cursorMarkup
        \<and> \<not> timerPending ((typing_tick originalText ^^ n) typing_init)
        \<and> typing_tick originalText ((typing_tick originalText ^^ n) typing_init)
            = (typing_tick originalText ^^ n) typing_init"
  proof
    assume gt: "length originalText < n"
    then have h: "heading ((typing_tick originalText ^^ n) typing_init)
        = text_nodes (parsed originalText) @ [CursorSpan]"
      by (simp add: typing_run_heading)
    have i: "innerHTML (text_nodes (parsed originalText) @ [CursorSpan])
        = html_escape (parsed originalText) @ cursorMarkup"
      using innerHTML_text_nodes [of "parsed originalText"] by (simp add: innerHTML_def)
    from gt h i typing_run_stop [OF gt]
    show "heading ((typing_tick originalText ^^ n) typing_init)
            = text_nodes (parsed originalText) @ [CursorSpan]
        \<and> innerHTML (heading ((typing_tick originalText ^^ n) typing_init))
            = html_escape (parsed originalText) @ cursorMarkup
        \<and> \<not> timerPending ((typing_tick originalText ^^ n) typing_init)
        \<and> typing_tick originalText ((typing_tick originalText ^^ n) typing_init)
            = (typing_tick originalText ^^ n) typing_init"
      by (simp add: typing_run_pending)
  qed
  have 8: "0 \<notin> set originalText \<and> 0x0D \<notin> set originalText \<longrightarrow>
        parsed (take n originalText) = take n originalText"
  proof
    assume "0 \<notin> set originalText \<and> 0x0D \<notin> set originalText"
    then have "0 \<notin> set (take n originalText)" "0x0D \<notin> set (take n originalText)"
      by (auto dest: in_set_takeD)
    then show "parsed (take n originalText) = take n originalText"
      by (rule parsed_plain)
  qed
  from 1 2 3 4 5 6 7 8 show ?thesis by (intro conjI)
qed

theorem typing_effect_witness:
  "Hero_render ((Hero_tick ^^ 2) Hero_init) = [TextNode (js (''I'' @ [CHR 0x27])), CursorSpan]
   \<and> length fullText \<le> 43
   \<and> Hero_render ((Hero_tick ^^ 43) Hero_init) = [TextNode fullText, CursorSpan]
   \<and> Hero_tick ((Hero_tick ^^ 43) Hero_init) = (Hero_tick ^^ 43) Hero_init
   \<and> 2 \<le> length (js ''a&amp;b'')
   \<and> heading ((typing_tick (js ''a&amp;b'') ^^ 2) typing_init) = [TextNode (js ''a&'')]
   \<and> innerHTML (heading ((typing_tick (js ''a&amp;b'') ^^ 2) typing_init)) = js ''a&amp;''
   \<and> length (js ''a&amp;b'') < 8
   \<and> heading ((typing_tick (js ''a&amp;b'') ^^ 8) typing_init) = [TextNode (js ''a&amp;b''), CursorSpan]
   \<and> innerHTML (heading ((typing_tick (js ''a&amp;b'') ^^ 8) typing_init))
       = js ''a&amp;amp;b'' @ cursorMarkup"
proof -
  have a: "length fullText \<le> 43"
    by (simp add: fullText_def js_def)
  have b: "2 \<le> length (js ''a&amp;b'')" and c: "length (js ''a&amp;b'') < 8"
    by (simp_all add: js_def)
  have h2: "Hero_render ((Hero_tick ^^ 2) Hero_init) = [TextNode (js (''I'' @ [CHR 0x27])), CursorSpan]"
    using typing_effect [of 2, THEN conjunct2, THEN conjunct2, THEN conjunct1]
    by (simp add: fullText_def js_def)
  note h = typing_effect [of 43, THEN conjunct2, THEN conjunct2, THEN conjunct2, THEN conjunct1,
      THEN mp, OF a]
  note t2 = typing_effect [of 2 "js ''a&amp;b''", THEN conjunct2, THEN conjunct2, THEN conjunct2,
      THEN conjunct2, THEN conjunct2, THEN conjunct1, THEN mp, OF b]
  note t8 = typing_effect [of 8 "js ''a&amp;b''", THEN conjunct2, THEN conjunct2, THEN conjunct2,
      THEN conjunct2, THEN conjunct2, THEN conjunct2, THEN conjunct1, THEN mp, OF c]
  have p2: "parsed (take 2 (js ''a&amp;b'')) = js ''a&''"
    by (simp add: parsed_def parsed_char_def js_def)
  have p8: "parsed (js ''a&amp;b'') = js ''a&amp;b''"
    by (simp add: parsed_def parsed_char_def js_def)
  have e2: "html_escape (js ''a&'') = js ''a&amp;''"
    by (simp add: html_escape_def js_def)
  have e8: "html_escape (js ''a&amp;b'') = js ''a&amp;amp;b''"
    by (simp add: html_escape_def js_def)
  have n2: "text_nodes (js ''a&'') = [TextNode (js ''a&'')]"
    and n8: "text_nodes (js ''a&amp;b'') = [TextNode (js ''a&amp;b'')]"
    by (simp_all add: text_nodes_def js_def)
  have 1: "heading ((typing_tick (js ''a&amp;b'') ^^ 2) typing_init) = [TextNode (js ''a&'')]"
    using t2 [THEN conjunct1] unfolding p2 n2 .
  have 2: "innerHTML (heading ((typing_tick (js ''a&amp;b'') ^^ 2) typing_init)) = js ''a&amp;''"
    using t2 [THEN conjunct2, THEN conjunct1] unfolding p2 e2 .
  have 3: "heading ((typing_tick (js ''a&amp;b'') ^^ 8) typing_init) = [TextNode (js ''a&amp;b''), CursorSpan]"
    using t8 [THEN conjunct1] unfolding p8 n8 by simp
  have 4: "innerHTML (heading ((typing_tick (js ''a&amp;b'') ^^ 8) typing_init))
       = js ''a&amp;amp;b'' @ cursorMarkup"
    using t8 [THEN conjunct2, THEN conjunct1] unfolding p8 e8 .
  from h2 a h [THEN conjunct1] h [THEN conjunct2] b 1 2 c 3 4
  show ?thesis by (intro conjI)
qed

end
